theory Spec2Isabelle
  imports Complex_Main "HOL-Library.Sublist" "HOL-Library.Multiset"
begin

section \<open>Strings of the runtime\<close>

text \<open>
  A JavaScript string is a sequence of UTF-16 code units. The texts the program handles
  are mostly Chinese, so a code unit is modelled as a natural number and a string as a
  list of them. ASCII literals are written with \<open>asc\<close>, other characters by code unit:
  U+6708 is the month marker, U+65E5 the day marker, U+5E74 the year marker,
  U+81F3 the word "to".
\<close>

type_synonym jstring = "nat list"

definition asc :: "string \<Rightarrow> jstring" where
  "asc s = map of_char s"

text \<open>\<open>bs s\<close> is the text \<open>s\<close> after a backslash (code unit 0x5C).\<close>

definition bs :: "string \<Rightarrow> jstring" where
  "bs s = 0x5C # asc s"

text \<open>\<open>\s\<close> of a regular expression and \<open>String.prototype.trim\<close> use the same set:
  the WhiteSpace and LineTerminator code points of the language.\<close>

definition is_line_terminator :: "nat \<Rightarrow> bool" where
  "is_line_terminator c = (c = 0x0A \<or> c = 0x0D \<or> c = 0x2028 \<or> c = 0x2029)"

definition is_ws :: "nat \<Rightarrow> bool" where
  "is_ws c = (c = 0x09 \<or> c = 0x0B \<or> c = 0x0C \<or> c = 0x20 \<or> c = 0xA0 \<or> c = 0x1680
     \<or> (0x2000 \<le> c \<and> c \<le> 0x200A) \<or> c = 0x202F \<or> c = 0x205F \<or> c = 0x3000
     \<or> c = 0xFEFF \<or> is_line_terminator c)"

definition is_digit :: "nat \<Rightarrow> bool" where
  "is_digit c = (0x30 \<le> c \<and> c \<le> 0x39)"

definition trim :: "jstring \<Rightarrow> jstring" where
  "trim s = rev (dropWhile is_ws (rev (dropWhile is_ws s)))"

text \<open>\<open>a.includes(b)\<close>: \<open>b\<close> occurs in \<open>a\<close> as a contiguous run of code units.\<close>

fun starts_with :: "jstring \<Rightarrow> jstring \<Rightarrow> bool" where
  "starts_with s [] = True"
| "starts_with [] (p # ps) = False"
| "starts_with (c # cs) (p # ps) = (c = p \<and> starts_with cs ps)"

fun includes_js :: "jstring \<Rightarrow> jstring \<Rightarrow> bool" where
  "includes_js [] b = (b = [])"
| "includes_js (c # cs) b = (starts_with (c # cs) b \<or> includes_js cs b)"

text \<open>Decimal rendering of a non-negative integer, as a template literal does it.\<close>

function decimal :: "nat \<Rightarrow> jstring" where
  "decimal n = (if n < 10 then [0x30 + n] else decimal (n div 10) @ [0x30 + n mod 10])"
  by pat_completeness auto
termination
  by (relation "measure id") auto

declare decimal.simps [simp del]

text \<open>\<open>parseInt\<close> on a run of decimal digits.\<close>

definition parseInt_digits :: "jstring \<Rightarrow> nat" where
  "parseInt_digits ds = foldl (\<lambda>acc c. 10 * acc + (c - 0x30)) 0 ds"

section \<open>Regular expressions of the runtime\<close>

text \<open>
  \<open>new RegExp(pattern)\<close> and \<open>RegExp.prototype.test\<close> are the runtime's. The validator
  below takes them as arguments, so what is proved of it holds for the runtime's own
  engine. For statements about concrete patterns this section gives an engine for the
  part of the pattern language that the built-in and the synthesized patterns use:
  alternation, groups (capturing and \<open>(?:\<close>), the anchors, the quantifiers
  \<open>*\<close>, \<open>+\<close>, \<open>?\<close>, \<open>{n}\<close>, \<open>{n,}\<close>, \<open>{n,m}\<close> with their lazy forms, the dot,
  character classes with ranges and negation, the escapes \<open>\d \D \s \S \w \W \t \n \v \f \r\<close>
  and escaped literals. A brace that does not open a quantifier, a closing bracket and a
  closing brace are literals, as in the runtime without the \<open>u\<close> flag. Look-around,
  back-references, named groups, word boundaries and numeric or control escapes are
  outside this part; \<open>RegExp_new\<close> answers \<open>None\<close> on them as on a syntax error, and no
  statement below uses such a pattern.

  \<open>test\<close> only asks whether some match exists, so the engine computes sets of
  positions instead of backtracking: a position is the text that is left, with a flag
  telling whether it is the start of the input; \<open>step r P\<close> is the list of positions
  where a match of \<open>r\<close> that begins at a position of \<open>P\<close> can end.
\<close>

type_synonym ranges = "(nat \<times> nat) list"

datatype regex =
    Class bool ranges
  | Bol
  | Eol
  | Empty
  | Seq regex regex
  | Alt regex regex
  | Rep nat "nat option" regex

definition in_class :: "bool \<Rightarrow> ranges \<Rightarrow> nat \<Rightarrow> bool" where
  "in_class neg rs c = (list_ex (\<lambda>(lo, hi). lo \<le> c \<and> c \<le> hi) rs \<noteq> neg)"

type_synonym pos = "bool \<times> jstring"

fun eat :: "bool \<Rightarrow> ranges \<Rightarrow> pos list \<Rightarrow> pos list" where
  "eat neg rs [] = []"
| "eat neg rs ((b, []) # P) = eat neg rs P"
| "eat neg rs ((b, c # cs) # P) =
     (if in_class neg rs c then List.insert (False, cs) (eat neg rs P) else eat neg rs P)"

fun merge_pos :: "pos list \<Rightarrow> pos list \<Rightarrow> pos list" where
  "merge_pos [] Q = Q"
| "merge_pos (p # P) Q = List.insert p (merge_pos P Q)"

definition longest :: "pos list \<Rightarrow> nat" where
  "longest P = foldr (\<lambda>p n. max (length (snd p)) n) P 0"

fun iterate :: "nat \<Rightarrow> ('a \<Rightarrow> 'a) \<Rightarrow> 'a \<Rightarrow> 'a" where
  "iterate n f x = (if n = 0 then x else iterate (n - 1) f (f x))"

declare iterate.simps [simp del]

text \<open>
  \<open>grow k f Q J\<close> adds to \<open>J\<close> what up to \<open>k\<close> further rounds of \<open>f\<close> reach from
  \<open>Q\<close>. For an unbounded quantifier the number of rounds is the length of the longest
  text left in \<open>Q\<close>: a round that consumes nothing reaches nothing new.
\<close>

fun grow :: "nat \<Rightarrow> (pos list \<Rightarrow> pos list) \<Rightarrow> pos list \<Rightarrow> pos list \<Rightarrow> pos list" where
  "grow k f Q J = (if k = 0 then J else grow (k - 1) f Q (merge_pos Q (f J)))"

declare grow.simps [simp del]

definition rep_more :: "nat option \<Rightarrow> nat \<Rightarrow> (pos list \<Rightarrow> pos list) \<Rightarrow> pos list \<Rightarrow> pos list" where
  "rep_more m n f Q = grow (case m of Some j \<Rightarrow> j - n | None \<Rightarrow> longest Q) f Q Q"

primrec step :: "regex \<Rightarrow> pos list \<Rightarrow> pos list" where
  "step (Class neg rs) P = eat neg rs P"
| "step Bol P = filter fst P"
| "step Eol P = filter (\<lambda>p. snd p = []) P"
| "step Empty P = P"
| "step (Seq r1 r2) P = step r2 (step r1 P)"
| "step (Alt r1 r2) P = merge_pos (step r1 P) (step r2 P)"
| "step (Rep n m r) P = rep_more m n (step r) (iterate n (step r) P)"

text \<open>
  \<open>test\<close> searches: it tries a match at the start of the input and at every later
  position, and succeeds when one of the attempts does. \<open>full_match\<close> asks for more:
  a match that begins at the start and ends at the end of the input.
\<close>

fun later :: "jstring \<Rightarrow> pos list" where
  "later [] = []"
| "later (c # cs) = (False, cs) # later cs"

definition matches_at :: "regex \<Rightarrow> pos \<Rightarrow> bool" where
  "matches_at r p = (step r [p] \<noteq> [])"

definition RegExp_test :: "regex \<Rightarrow> jstring \<Rightarrow> bool" where
  "RegExp_test r s = list_ex (matches_at r) ((True, s) # later s)"

definition full_match :: "regex \<Rightarrow> jstring \<Rightarrow> bool" where
  "full_match r s = list_ex (\<lambda>p. snd p = []) (step r [(True, s)])"

subsection \<open>Pattern syntax\<close>

definition rs_digit :: ranges where "rs_digit = [(0x30, 0x39)]"
definition rs_word :: ranges where
  "rs_word = [(0x30, 0x39), (0x41, 0x5A), (0x5F, 0x5F), (0x61, 0x7A)]"
definition rs_space :: ranges where
  "rs_space = [(0x09, 0x0D), (0x20, 0x20), (0xA0, 0xA0), (0x1680, 0x1680), (0x2000, 0x200A),
     (0x2028, 0x2029), (0x202F, 0x202F), (0x205F, 0x205F), (0x3000, 0x3000), (0xFEFF, 0xFEFF)]"
definition rs_newline :: ranges where
  "rs_newline = [(0x0A, 0x0A), (0x0D, 0x0D), (0x2028, 0x2029)]"

text \<open>The complement of a sorted list of disjoint ranges inside 0 .. 0xFFFF.\<close>

fun complement :: "nat \<Rightarrow> ranges \<Rightarrow> ranges" where
  "complement lo [] = (if lo \<le> 0xFFFF then [(lo, 0xFFFF)] else [])"
| "complement lo ((a, b) # rs) =
     (if lo < a then (lo, a - 1) # complement (Suc b) rs else complement (Suc b) rs)"

datatype esc = EscSet bool ranges | EscChar nat

definition escape :: "nat \<Rightarrow> esc option" where
  "escape e =
     (if e = 0x64 then Some (EscSet False rs_digit)
      else if e = 0x44 then Some (EscSet True rs_digit)
      else if e = 0x73 then Some (EscSet False rs_space)
      else if e = 0x53 then Some (EscSet True rs_space)
      else if e = 0x77 then Some (EscSet False rs_word)
      else if e = 0x57 then Some (EscSet True rs_word)
      else if e = 0x74 then Some (EscChar 0x09)
      else if e = 0x6E then Some (EscChar 0x0A)
      else if e = 0x76 then Some (EscChar 0x0B)
      else if e = 0x66 then Some (EscChar 0x0C)
      else if e = 0x72 then Some (EscChar 0x0D)
      else if (0x30 \<le> e \<and> e \<le> 0x39) \<or> e = 0x62 \<or> e = 0x42 \<or> e = 0x63 \<or> e = 0x6B
              \<or> e = 0x75 \<or> e = 0x78 then None
      else Some (EscChar e))"

datatype catom = CDash | CChar nat | CSet ranges

fun class_tokens :: "jstring \<Rightarrow> (catom list \<times> jstring) option" where
  "class_tokens [] = None"
| "class_tokens [c] = (if c = 0x5D then Some ([], []) else None)"
| "class_tokens (c # e # cs) =
     (if c = 0x5D then Some ([], e # cs)
      else if c = 0x5C then
        (if e = 0x62 then map_option (\<lambda>(as, r). (CChar 0x08 # as, r)) (class_tokens cs)
         else
           (case escape e of
              None \<Rightarrow> None
            | Some (EscChar x) \<Rightarrow> map_option (\<lambda>(as, r). (CChar x # as, r)) (class_tokens cs)
            | Some (EscSet neg rs) \<Rightarrow>
                map_option (\<lambda>(as, r). (CSet (if neg then complement 0 rs else rs) # as, r))
                  (class_tokens cs)))
      else if c = 0x2D then map_option (\<lambda>(as, r). (CDash # as, r)) (class_tokens (e # cs))
      else map_option (\<lambda>(as, r). (CChar c # as, r)) (class_tokens (e # cs)))"

definition atom_ranges :: "catom \<Rightarrow> ranges" where
  "atom_ranges a = (case a of CDash \<Rightarrow> [(0x2D, 0x2D)] | CChar c \<Rightarrow> [(c, c)] | CSet rs \<Rightarrow> rs)"

definition atom_char :: "catom \<Rightarrow> nat option" where
  "atom_char a = (case a of CDash \<Rightarrow> Some 0x2D | CChar c \<Rightarrow> Some c | CSet rs \<Rightarrow> None)"

fun class_ranges :: "catom list \<Rightarrow> ranges option" where
  "class_ranges (a # CDash # b # as) =
     (case (atom_char a, atom_char b) of
        (Some x, Some y) \<Rightarrow>
          (if x \<le> y then map_option (\<lambda>rs. (x, y) # rs) (class_ranges as) else None)
      | _ \<Rightarrow> map_option (\<lambda>rs. atom_ranges a @ (0x2D, 0x2D) # atom_ranges b @ rs)
               (class_ranges as))"
| "class_ranges (a # as) = map_option (\<lambda>rs. atom_ranges a @ rs) (class_ranges as)"
| "class_ranges [] = Some []"

definition parse_class :: "jstring \<Rightarrow> (regex \<times> jstring) option" where
  "parse_class cs =
     (let neg = (case cs of [] \<Rightarrow> False | c # _ \<Rightarrow> c = 0x5E);
          body = (if neg then tl cs else cs)
      in case class_tokens body of
           None \<Rightarrow> None
         | Some (as, r) \<Rightarrow> map_option (\<lambda>rs. (Class neg rs, r)) (class_ranges as))"

text \<open>The text after an opening brace: \<open>n}\<close>, \<open>n,}\<close> or \<open>n,m}\<close>.\<close>

definition parse_braces :: "jstring \<Rightarrow> ((nat \<times> nat option) \<times> jstring) option" where
  "parse_braces cs =
     (let ds = takeWhile is_digit cs; r = dropWhile is_digit cs in
      if ds = [] then None
      else
        (case r of
           [] \<Rightarrow> None
         | c # r1 \<Rightarrow>
             if c = 0x7D then Some ((parseInt_digits ds, Some (parseInt_digits ds)), r1)
             else if c = 0x2C then
               (let es = takeWhile is_digit r1; r2 = dropWhile is_digit r1 in
                case r2 of
                  [] \<Rightarrow> None
                | d # r3 \<Rightarrow>
                    if d \<noteq> 0x7D then None
                    else if es = [] then Some ((parseInt_digits ds, None), r3)
                    else Some ((parseInt_digits ds, Some (parseInt_digits es)), r3))
             else None))"

datatype frame = Frame "regex list" "regex list"

definition mk_seq :: "regex list \<Rightarrow> regex" where
  "mk_seq ts = foldl (\<lambda>acc t. Seq t acc) Empty ts"

definition close_frame :: "frame \<Rightarrow> regex" where
  "close_frame f =
     (case f of Frame alts ts \<Rightarrow> foldl (\<lambda>acc a. Alt a acc) (mk_seq ts) alts)"

definition skip_lazy :: "jstring \<Rightarrow> jstring" where
  "skip_lazy cs = (case cs of [] \<Rightarrow> [] | c # r \<Rightarrow> if c = 0x3F then r else cs)"

definition quantify :: "nat \<Rightarrow> nat option \<Rightarrow> frame \<Rightarrow> frame" where
  "quantify n m f =
     (case f of Frame alts ts \<Rightarrow>
        (case ts of [] \<Rightarrow> f | t # ts' \<Rightarrow> Frame alts (Rep n m t # ts')))"

definition push_term :: "regex \<Rightarrow> frame \<Rightarrow> frame" where
  "push_term t f = (case f of Frame alts ts \<Rightarrow> Frame alts (t # ts))"

definition next_alt :: "frame \<Rightarrow> frame" where
  "next_alt f = (case f of Frame alts ts \<Rightarrow> Frame (mk_seq ts # alts) [])"

lemma class_tokens_length: "class_tokens cs = Some (as, r) \<Longrightarrow> length r < length cs"
proof (induction cs arbitrary: as r rule: length_induct)
  case (1 cs)
  show ?case
  proof (cases cs)
    case Nil
    with "1.prems" show ?thesis by simp
  next
    case (Cons c cs1)
    show ?thesis
    proof (cases cs1)
      case Nil
      with Cons "1.prems" show ?thesis by (simp split: if_splits)
    next
      case (Cons e cs2)
      have "r = e # cs2 \<or> (\<exists>as'. class_tokens cs2 = Some (as', r))
            \<or> (\<exists>as'. class_tokens (e # cs2) = Some (as', r))"
        using "1.prems" \<open>cs = c # cs1\<close> Cons
        by (auto split: if_splits option.splits esc.splits)
      then show ?thesis
      proof (elim disjE exE)
        assume "r = e # cs2"
        then show ?thesis using \<open>cs = c # cs1\<close> Cons by simp
      next
        fix as' assume a: "class_tokens cs2 = Some (as', r)"
        have "length cs2 < length cs" using \<open>cs = c # cs1\<close> Cons by simp
        with "1.IH" a have "length r < length cs2" by blast
        then show ?thesis using \<open>cs = c # cs1\<close> Cons by simp
      next
        fix as' assume a: "class_tokens (e # cs2) = Some (as', r)"
        have "length (e # cs2) < length cs" using \<open>cs = c # cs1\<close> Cons by simp
        with "1.IH" a have "length r < length (e # cs2)" by blast
        then show ?thesis using \<open>cs = c # cs1\<close> Cons by simp
      qed
    qed
  qed
qed

lemma parse_class_length: "parse_class cs = Some (t, r) \<Longrightarrow> length r \<le> length cs"
  by (cases cs) (auto simp: parse_class_def Let_def split: option.splits if_splits
        dest!: class_tokens_length)

lemma parse_braces_length: "parse_braces cs = Some (q, r) \<Longrightarrow> length r \<le> length cs"
proof -
  have a: "length (dropWhile is_digit xs) \<le> length xs" for xs
    by (rule length_dropWhile_le)
  assume "parse_braces cs = Some (q, r)"
  then show ?thesis
    using a [of cs] a [of "tl (dropWhile is_digit cs)"]
    by (auto simp: parse_braces_def Let_def split: list.splits if_splits)
qed

lemma skip_lazy_length: "length (skip_lazy cs) \<le> length cs"
  by (auto simp: skip_lazy_def split: list.splits)

datatype action = Reject | Continue "frame list" frame bool jstring

definition quantifier :: "frame list \<Rightarrow> frame \<Rightarrow> bool \<Rightarrow> nat \<Rightarrow> nat option \<Rightarrow> jstring \<Rightarrow> action" where
  "quantifier st f q n m r =
     (if q \<and> (case m of None \<Rightarrow> True | Some k \<Rightarrow> n \<le> k)
      then Continue st (quantify n m f) False (skip_lazy r)
      else Reject)"

definition open_group :: "frame list \<Rightarrow> frame \<Rightarrow> jstring \<Rightarrow> action" where
  "open_group st f cs =
     (case cs of
        [] \<Rightarrow> Reject
      | c1 # r1 \<Rightarrow>
          if c1 = 0x3F then
            (case r1 of
               [] \<Rightarrow> Reject
             | c2 # r2 \<Rightarrow> if c2 = 0x3A then Continue (f # st) (Frame [] []) False r2 else Reject)
          else Continue (f # st) (Frame [] []) False cs)"

definition atom_escape :: "frame list \<Rightarrow> frame \<Rightarrow> jstring \<Rightarrow> action" where
  "atom_escape st f cs =
     (case cs of
        [] \<Rightarrow> Reject
      | e # r \<Rightarrow>
          (case escape e of
             None \<Rightarrow> Reject
           | Some (EscChar x) \<Rightarrow> Continue st (push_term (Class False [(x, x)]) f) True r
           | Some (EscSet neg rs) \<Rightarrow> Continue st (push_term (Class neg rs) f) True r))"

datatype token =
    TBar | TOpen | TClose | TCaret | TDollar | TStar | TPlus | TQuest | TBrace
  | TBackslash | TBracket | TDot | TChar

definition token :: "nat \<Rightarrow> token" where
  "token c =
     (if c = 0x7C then TBar
      else if c = 0x28 then TOpen
      else if c = 0x29 then TClose
      else if c = 0x5E then TCaret
      else if c = 0x24 then TDollar
      else if c = 0x2A then TStar
      else if c = 0x2B then TPlus
      else if c = 0x3F then TQuest
      else if c = 0x7B then TBrace
      else if c = 0x5C then TBackslash
      else if c = 0x5B then TBracket
      else if c = 0x2E then TDot
      else TChar)"

definition close_group :: "frame list \<Rightarrow> frame \<Rightarrow> jstring \<Rightarrow> action" where
  "close_group st f cs =
     (case st of
        [] \<Rightarrow> Reject
      | g # st' \<Rightarrow> Continue st' (push_term (close_frame f) g) True cs)"

definition braces :: "frame list \<Rightarrow> frame \<Rightarrow> bool \<Rightarrow> nat \<Rightarrow> jstring \<Rightarrow> action" where
  "braces st f q c cs =
     (case parse_braces cs of
        None \<Rightarrow> Continue st (push_term (Class False [(c, c)]) f) True cs
      | Some ((n, m), r) \<Rightarrow> quantifier st f q n m r)"

definition bracket :: "frame list \<Rightarrow> frame \<Rightarrow> jstring \<Rightarrow> action" where
  "bracket st f cs =
     (case parse_class cs of
        None \<Rightarrow> Reject
      | Some (t, r) \<Rightarrow> Continue st (push_term t f) True r)"

definition parse_step :: "frame list \<Rightarrow> frame \<Rightarrow> bool \<Rightarrow> nat \<Rightarrow> jstring \<Rightarrow> action" where
  "parse_step st f q c cs =
     (case token c of
        TBar \<Rightarrow> Continue st (next_alt f) False cs
      | TOpen \<Rightarrow> open_group st f cs
      | TClose \<Rightarrow> close_group st f cs
      | TCaret \<Rightarrow> Continue st (push_term Bol f) False cs
      | TDollar \<Rightarrow> Continue st (push_term Eol f) False cs
      | TStar \<Rightarrow> quantifier st f q 0 None cs
      | TPlus \<Rightarrow> quantifier st f q 1 None cs
      | TQuest \<Rightarrow> quantifier st f q 0 (Some 1) cs
      | TBrace \<Rightarrow> braces st f q c cs
      | TBackslash \<Rightarrow> atom_escape st f cs
      | TBracket \<Rightarrow> bracket st f cs
      | TDot \<Rightarrow> Continue st (push_term (Class True rs_newline) f) True cs
      | TChar \<Rightarrow> Continue st (push_term (Class False [(c, c)]) f) True cs)"

lemma quantifier_length:
  "quantifier st f q n m r = Continue st' f' q' r' \<Longrightarrow> length r' \<le> length r"
  using skip_lazy_length [of r] by (auto simp: quantifier_def split: if_splits)

lemma open_group_length:
  "open_group st f cs = Continue st' f' q' r' \<Longrightarrow> length r' \<le> length cs"
  by (auto simp: open_group_def split: list.splits if_splits)

lemma atom_escape_length:
  "atom_escape st f cs = Continue st' f' q' r' \<Longrightarrow> length r' \<le> length cs"
  by (auto simp: atom_escape_def split: list.splits option.splits esc.splits)

lemma close_group_length:
  "close_group st f cs = Continue st' f' q' r' \<Longrightarrow> length r' \<le> length cs"
  by (auto simp: close_group_def split: list.splits)

lemma braces_length:
  assumes "braces st f q c cs = Continue st' f' q' r'"
  shows "length r' \<le> length cs"
proof (cases "parse_braces cs")
  case None
  with assms show ?thesis by (simp add: braces_def)
next
  case (Some a)
  obtain n m r where a: "a = ((n, m), r)" by (metis prod.exhaust)
  with Some assms have "quantifier st f q n m r = Continue st' f' q' r'"
    by (simp add: braces_def)
  then have "length r' \<le> length r" by (rule quantifier_length)
  moreover have "length r \<le> length cs"
    using Some a parse_braces_length by blast
  ultimately show ?thesis by simp
qed

lemma bracket_length:
  "bracket st f cs = Continue st' f' q' r' \<Longrightarrow> length r' \<le> length cs"
  by (auto simp: bracket_def split: option.splits dest: parse_class_length)

lemma parse_step_length:
  assumes "parse_step st f q c cs = Continue st' f' q' r'"
  shows "length r' \<le> length cs"
  using assms unfolding parse_step_def
  by (cases "token c")
     (simp_all add: quantifier_length open_group_length close_group_length braces_length
        atom_escape_length bracket_length)

function parse :: "frame list \<Rightarrow> frame \<Rightarrow> bool \<Rightarrow> jstring \<Rightarrow> regex option" where
  "parse st f q [] = (if st = [] then Some (close_frame f) else None)"
| "parse st f q (c # cs) =
     (case parse_step st f q c cs of
        Reject \<Rightarrow> None
      | Continue st' f' q' r \<Rightarrow> parse st' f' q' r)"
  by pat_completeness auto
termination
proof (relation "measure (\<lambda>(st, f, q, cs). length cs)")
  show "wf (measure (\<lambda>(st :: frame list, f :: frame, q :: bool, cs :: jstring). length cs))"
    by simp
next
  fix st f q c cs st' f' q' r
  assume "parse_step st f q c cs = Continue st' f' q' r"
  then have "length r \<le> length cs"
    by (rule parse_step_length)
  then show "((st', f', q', r), (st, f, q, c # cs)) \<in> measure (\<lambda>(st, f, q, cs). length cs)"
    by simp
qed

definition RegExp_new :: "jstring \<Rightarrow> regex option" where
  "RegExp_new pat = parse [] (Frame [] []) False pat"

section \<open>The constants module: time formats, locations, pattern synthesis\<close>

text \<open>
  The functions of lines 631 to 791 of \<open>src/components/PosterValidator.tsx\<close>, which the
  other modules import as \<open>constants\<close>.
\<close>

record TimeFormatItem =
  tf_id :: jstring
  tf_name :: jstring
  tf_pattern :: jstring
  tf_isSystem :: "bool option"

record AddressLibraryItem =
  al_id :: jstring
  al_name :: jstring

record validation =
  isValid :: bool
  message :: "jstring option"

subsection \<open>Removing bracketed remarks\<close>

text \<open>
  \<open>replace(/(\(.*?\)|F.*?G)/g, '')\<close> with F and G the fullwidth brackets U+FF08 and
  U+FF09. At an opening bracket the lazy \<open>.*?\<close> runs to the first closing bracket
  of the same kind; \<open>.\<close> does not match a line terminator, so a line terminator
  before the closing bracket makes the attempt fail, and the opening
  bracket stays.
\<close>

fun find_close :: "nat \<Rightarrow> jstring \<Rightarrow> jstring option" where
  "find_close cl [] = None"
| "find_close cl (c # cs) =
     (if c = cl then Some cs
      else if is_line_terminator c then None
      else find_close cl cs)"

lemma find_close_length: "find_close cl cs = Some r \<Longrightarrow> length r < length cs"
  by (induction cs) (auto split: if_splits)

function strip_brackets :: "jstring \<Rightarrow> jstring" where
  "strip_brackets [] = []"
| "strip_brackets (c # cs) =
     (if c = 0x28 then
        (case find_close 0x29 cs of
           Some r \<Rightarrow> strip_brackets r
         | None \<Rightarrow> c # strip_brackets cs)
      else if c = 0xFF08 then
        (case find_close 0xFF09 cs of
           Some r \<Rightarrow> strip_brackets r
         | None \<Rightarrow> c # strip_brackets cs)
      else c # strip_brackets cs)"
  by pat_completeness auto
termination
  by (relation "measure length") (auto dest: find_close_length)

subsection \<open>checkLogicalValidity\<close>

text \<open>
  The loop \<open>while ((match = dateRegex.exec(str)) !== null)\<close> with
  \<open>dateRegex = /(\d{1,2})\s*[M\.\/-]\s*(\d{1,2})\s*[D]?/g\<close>, where M is U+6708 and
  D is U+65E5. \<open>match_date\<close> is one match attempt at the head of the string: a digit,
  a white space and a separator are pairwise different characters, so the greedy choice of
  every quantifier is the only one that can succeed and no backtracking is left.
  It returns the two captured numbers and the text after the match, where the next
  \<open>exec\<close> resumes.
\<close>

definition digits12 :: "jstring \<Rightarrow> (jstring \<times> jstring) option" where
  "digits12 s =
     (case s of
        a # b # r \<Rightarrow>
          (if is_digit a \<and> is_digit b then Some ([a, b], r)
           else if is_digit a then Some ([a], b # r)
           else None)
      | [a] \<Rightarrow> (if is_digit a then Some ([a], []) else None)
      | [] \<Rightarrow> None)"

definition is_date_sep :: "nat \<Rightarrow> bool" where
  "is_date_sep c = (c = 0x6708 \<or> c = 0x2E \<or> c = 0x2F \<or> c = 0x2D)"

definition match_date :: "jstring \<Rightarrow> ((nat \<times> nat) \<times> jstring) option" where
  "match_date s =
     (case digits12 s of
        None \<Rightarrow> None
      | Some (g1, r1) \<Rightarrow>
          (case dropWhile is_ws r1 of
             [] \<Rightarrow> None
           | c # r2 \<Rightarrow>
               if \<not> is_date_sep c then None
               else
                 (case digits12 (dropWhile is_ws r2) of
                    None \<Rightarrow> None
                  | Some (g2, r3) \<Rightarrow>
                      (let r4 = dropWhile is_ws r3;
                           r5 = (case r4 of [] \<Rightarrow> [] | e # r \<Rightarrow> if e = 0x65E5 then r else r4)
                       in Some ((parseInt_digits g1, parseInt_digits g2), r5)))))"

lemma digits12_length: "digits12 s = Some (g, r) \<Longrightarrow> length r < length s"
  by (auto simp: digits12_def split: list.splits if_splits)

lemma match_date_length:
  assumes "match_date s = Some (p, r)"
  shows "length r < length s"
proof -
  from assms obtain g1 r1 c r2 g2 r3 where
    a: "digits12 s = Some (g1, r1)" and
    b: "dropWhile is_ws r1 = c # r2" and
    c: "digits12 (dropWhile is_ws r2) = Some (g2, r3)" and
    d: "r = (case dropWhile is_ws r3 of [] \<Rightarrow> []
             | e # r' \<Rightarrow> if e = 0x65E5 then r' else dropWhile is_ws r3)"
    by (auto simp: match_date_def Let_def split: option.splits list.splits if_splits)
  have "length r \<le> length (dropWhile is_ws r3)"
    using d by (auto split: list.splits)
  also have "\<dots> \<le> length r3"
    by (rule length_dropWhile_le)
  also have "\<dots> < length (dropWhile is_ws r2)"
    using c by (rule digits12_length)
  also have "\<dots> \<le> length r2"
    by (rule length_dropWhile_le)
  also have "\<dots> < length (dropWhile is_ws r1)"
    using b by simp
  also have "\<dots> \<le> length r1"
    by (rule length_dropWhile_le)
  also have "\<dots> < length s"
    using a by (rule digits12_length)
  finally show ?thesis .
qed

function extract_dates :: "jstring \<Rightarrow> (nat \<times> nat) list" where
  "extract_dates [] = []"
| "extract_dates (c # cs) =
     (case match_date (c # cs) of
        Some (p, r) \<Rightarrow> p # extract_dates r
      | None \<Rightarrow> extract_dates cs)"
  by pat_completeness auto
termination
  by (relation "measure length") (auto dest: match_date_length)

definition daysInMonth :: "nat list" where
  "daysInMonth = [0, 31, 29, 31, 30, 31, 30, 31, 31, 30, 31, 30, 31]"

definition msg_month :: "nat \<Rightarrow> jstring" where
  "msg_month m = [0x6708, 0x4EFD, 0x20] @ decimal m
     @ [0x20, 0x65E0, 0x6548, 0x20, 0x28, 0x9700, 0x31, 0x2D, 0x31, 0x32, 0x29]"

definition msg_day :: "nat \<Rightarrow> nat \<Rightarrow> jstring" where
  "msg_day m d = decimal m @ [0x6708, 0x53EA, 0x6709] @ decimal (daysInMonth ! m)
     @ [0x5929, 0xFF0C, 0x65E0, 0x6CD5, 0x8BBE, 0x7F6E, 0x4E3A] @ decimal d @ [0x65E5]"

definition msg_order :: jstring where
  "msg_order = [0x7ED3, 0x675F, 0x65F6, 0x95F4, 0x4E0D, 0x80FD, 0x65E9, 0x4E8E,
     0x5F00, 0x59CB, 0x65F6, 0x95F4]"

definition msg_empty :: jstring where
  "msg_empty = [0x65F6, 0x95F4, 0x4E0D, 0x80FD, 0x4E3A, 0x7A7A]"

definition msg_format :: jstring where
  "msg_format = [0x683C, 0x5F0F, 0x4E0D, 0x7B26, 0x5408, 0x4EFB, 0x4F55, 0x5DF2, 0x77E5,
     0x89C4, 0x5219, 0x20, 0x28, 0x5982, 0x3A, 0x20, 0x58, 0x6708, 0x58, 0x65E5, 0x29]"

text \<open>The loop over the extracted dates; it returns at the first one that does not exist.\<close>

fun check_existence :: "(nat \<times> nat) list \<Rightarrow> jstring option" where
  "check_existence [] = None"
| "check_existence ((m, d) # ds) =
     (if m < 1 \<or> m > 12 then Some (msg_month m)
      else if d < 1 \<or> d > daysInMonth ! m then Some (msg_day m d)
      else check_existence ds)"

text \<open>\<open>/[-T]/.test(str)\<close> with T = U+81F3, and \<open>/\d{4}Y/.test(str)\<close> with Y = U+5E74.\<close>

definition has_range_sep :: "jstring \<Rightarrow> bool" where
  "has_range_sep s = list_ex (\<lambda>c. c = 0x2D \<or> c = 0x81F3) s"

fun has_year :: "jstring \<Rightarrow> bool" where
  "has_year (a # b # c # d # e # r) =
     ((is_digit a \<and> is_digit b \<and> is_digit c \<and> is_digit d \<and> e = 0x5E74)
      \<or> has_year (b # c # d # e # r))"
| "has_year _ = False"

definition checkLogicalValidity :: "jstring \<Rightarrow> jstring option" where
  "checkLogicalValidity str =
     (let dates = extract_dates str in
      if length dates = 0 then None
      else
        (case check_existence dates of
           Some err \<Rightarrow> Some err
         | None \<Rightarrow>
             if length dates = 2 \<and> has_range_sep str then
               (let start = dates ! 0; end' = dates ! 1;
                    v1 = fst start * 100 + snd start;
                    v2 = fst end' * 100 + snd end'
                in if fst start = 12 \<and> fst end' = 1 then None
                   else if v1 > v2 then (if has_year str then None else Some msg_order)
                   else None)
             else None))"

subsection \<open>INITIAL_TIME_FORMATS\<close>

text \<open>
  The built-in rules. With M = U+6708, D = U+65E5 and Y = U+5E74 the ten patterns are
  \<^enum> \<^verbatim>\<open>^\d{1,2}M\d{1,2}D$\<close>
  \<^enum> \<^verbatim>\<open>^\d{1,2}M\d{1,2}D[-\s]+\d{1,2}M\d{1,2}D$\<close>
  \<^enum> \<^verbatim>\<open>^\d{1,2}M$\<close>
  \<^enum> \<^verbatim>\<open>^\d{1,2}M[abc]X$\<close> with a, b, c = U+4E0A, U+4E2D, U+4E0B and X = U+65EC
  \<^enum> \<^verbatim>\<open>^WW[1234567,\s]+\d{1,2}:\d{2}-\d{1,2}:\d{2}$\<close> where WW is U+6BCF U+5468 and
    the class holds the numerals one to six, D and the comma U+3001
  \<^enum> \<^verbatim>\<open>^\d{1,2}M\d{1,2}D([,\s]+\d{1,2}M\d{1,2}D)*$\<close> with the comma U+3001
  \<^enum> \<^verbatim>\<open>^\d{1,2}M-\d{1,2}M$\<close>
  \<^enum> \<^verbatim>\<open>^QY$\<close> with Q = U+5168
  \<^enum> \<^verbatim>\<open>^\d{4}Y\d{1,2}M\d{1,2}D[-\s]+\d{4}Y\d{1,2}M\d{1,2}D$\<close>
  \<^enum> \<^verbatim>\<open>^\d{4}Y\d{1,2}M\d{1,2}D$\<close>
\<close>

definition rule :: "string \<Rightarrow> jstring \<Rightarrow> jstring \<Rightarrow> TimeFormatItem" where
  "rule i n p = \<lparr>tf_id = asc i, tf_name = n, tf_pattern = p, tf_isSystem = Some True\<rparr>"

definition d12 :: jstring where "d12 = bs ''d{1,2}''"
definition d4 :: jstring where "d4 = bs ''d{4}''"
definition sep_run :: jstring where "sep_run = asc ''[-'' @ bs ''s]+''"

definition INITIAL_TIME_FORMATS :: "TimeFormatItem list" where
  "INITIAL_TIME_FORMATS =
    [ rule ''1'' (asc ''X'' @ [0x6708] @ asc ''X'' @ [0x65E5])
        (asc ''^'' @ d12 @ [0x6708] @ d12 @ [0x65E5] @ asc ''$''),
      rule ''2''
        (asc ''X'' @ [0x6708] @ asc ''X'' @ [0x65E5] @ asc ''-X'' @ [0x6708] @ asc ''X'' @ [0x65E5])
        (asc ''^'' @ d12 @ [0x6708] @ d12 @ [0x65E5] @ sep_run
           @ d12 @ [0x6708] @ d12 @ [0x65E5] @ asc ''$''),
      rule ''3'' (asc ''X'' @ [0x6708]) (asc ''^'' @ d12 @ [0x6708] @ asc ''$''),
      rule ''4''
        (asc ''X'' @ [0x6708, 0x4E0A, 0x65EC, 0x2F, 0x4E2D, 0x65EC, 0x2F, 0x4E0B, 0x65EC])
        (asc ''^'' @ d12 @ [0x6708] @ asc ''['' @ [0x4E0A, 0x4E2D, 0x4E0B] @ asc '']'' @ [0x65EC]
           @ asc ''$''),
      rule ''5'' [0x6BCF, 0x5468, 0x56FA, 0x5B9A, 0x65F6, 0x95F4]
        (asc ''^'' @ [0x6BCF, 0x5468] @ asc ''[''
           @ [0x4E00, 0x4E8C, 0x4E09, 0x56DB, 0x4E94, 0x516D, 0x65E5, 0x3001] @ bs ''s]+''
           @ d12 @ asc '':'' @ bs ''d{2}-'' @ d12 @ asc '':'' @ bs ''d{2}$''),
      rule ''6''
        ([0x591A, 0x65E5, 0x671F] @ asc ''(''
           @ [0x987F, 0x53F7, 0x2F, 0x7A7A, 0x683C, 0x5206, 0x9694] @ asc '')'')
        (asc ''^'' @ d12 @ [0x6708] @ d12 @ [0x65E5] @ asc ''(['' @ [0x3001] @ bs ''s]+''
           @ d12 @ [0x6708] @ d12 @ [0x65E5] @ asc '')*$''),
      rule ''7'' (asc ''X'' @ [0x6708] @ asc ''-X'' @ [0x6708])
        (asc ''^'' @ d12 @ [0x6708] @ asc ''-'' @ d12 @ [0x6708] @ asc ''$''),
      rule ''8'' [0x5168, 0x5E74] (asc ''^'' @ [0x5168, 0x5E74] @ asc ''$''),
      rule ''9''
        (asc ''X'' @ [0x5E74] @ asc ''X'' @ [0x6708] @ asc ''X'' @ [0x65E5] @ asc ''-X'' @ [0x5E74]
           @ asc ''X'' @ [0x6708] @ asc ''X'' @ [0x65E5])
        (asc ''^'' @ d4 @ [0x5E74] @ d12 @ [0x6708] @ d12 @ [0x65E5] @ sep_run
           @ d4 @ [0x5E74] @ d12 @ [0x6708] @ d12 @ [0x65E5] @ asc ''$''),
      rule ''10'' (asc ''X'' @ [0x5E74] @ asc ''X'' @ [0x6708] @ asc ''X'' @ [0x65E5])
        (asc ''^'' @ d4 @ [0x5E74] @ d12 @ [0x6708] @ d12 @ [0x65E5] @ asc ''$'') ]"

subsection \<open>validateTimeFormat\<close>

text \<open>
  \<open>new RegExp(pattern)\<close> and \<open>regex.test(s)\<close> belong to the runtime, not to the
  program: the validator takes them as its first two arguments. The constructor returns
  \<open>None\<close> where the runtime throws a SyntaxError, which the \<open>try\<close>/\<open>catch\<close> inside the
  callback of \<open>formats.some\<close> turns into \<open>false\<close>.
\<close>

definition cleanStr :: "jstring \<Rightarrow> jstring" where
  "cleanStr timeStr = trim (strip_brackets timeStr)"

definition isFormatMatch ::
  "(jstring \<Rightarrow> 'r option) \<Rightarrow> ('r \<Rightarrow> jstring \<Rightarrow> bool) \<Rightarrow> TimeFormatItem list \<Rightarrow> jstring \<Rightarrow> bool" where
  "isFormatMatch new_RegExp test formats s =
     list_ex (\<lambda>fmt. case new_RegExp (tf_pattern fmt) of
                      None \<Rightarrow> False
                    | Some regex \<Rightarrow> test regex s) formats"

definition validateTimeFormat ::
  "(jstring \<Rightarrow> 'r option) \<Rightarrow> ('r \<Rightarrow> jstring \<Rightarrow> bool) \<Rightarrow> jstring \<Rightarrow> TimeFormatItem list \<Rightarrow> validation" where
  "validateTimeFormat new_RegExp test timeStr formats =
     (if timeStr = [] then \<lparr>isValid = False, message = Some msg_empty\<rparr>
      else if \<not> isFormatMatch new_RegExp test formats (cleanStr timeStr)
        then \<lparr>isValid = False, message = Some msg_format\<rparr>
      else
        (case checkLogicalValidity (cleanStr timeStr) of
           Some logicError \<Rightarrow>
             if logicError \<noteq> [] then \<lparr>isValid = False, message = Some logicError\<rparr>
             else \<lparr>isValid = True, message = None\<rparr>
         | None \<Rightarrow> \<lparr>isValid = True, message = None\<rparr>))"

subsection \<open>getRecommendedLocation\<close>

definition getRecommendedLocation :: "jstring \<Rightarrow> AddressLibraryItem list \<Rightarrow> jstring option" where
  "getRecommendedLocation input library =
     (if input = [] then None
      else
        (let clean = trim input in
         case find (\<lambda>item. includes_js (al_name item) clean) library of
           Some containerMatch \<Rightarrow> Some (al_name containerMatch)
         | None \<Rightarrow>
             (case find (\<lambda>item. includes_js clean (al_name item)) library of
                Some containedMatch \<Rightarrow> Some (al_name containedMatch)
              | None \<Rightarrow> None)))"

subsection \<open>generateRegexFromTime\<close>

text \<open>
  Step 2 of the source, \<open>replace(/[.*+?^${}()|[\]\\]/g, '\\$&')\<close>, puts a backslash before
  each of the fourteen characters of the class. Step 3 replaces every match of
  \<open>/\d+/g\<close>, a maximal run of digits, by \<open>\d{4}\<close> when the run has four digits and by
  \<open>\d{1,2}\<close> otherwise.
\<close>

definition is_special :: "nat \<Rightarrow> bool" where
  "is_special c = (c = 0x2E \<or> c = 0x2A \<or> c = 0x2B \<or> c = 0x3F \<or> c = 0x5E \<or> c = 0x24
     \<or> c = 0x7B \<or> c = 0x7D \<or> c = 0x28 \<or> c = 0x29 \<or> c = 0x7C \<or> c = 0x5B \<or> c = 0x5D
     \<or> c = 0x5C)"

fun escape_special :: "jstring \<Rightarrow> jstring" where
  "escape_special [] = []"
| "escape_special (c # cs) =
     (if is_special c then 0x5C # c # escape_special cs else c # escape_special cs)"

definition digit_class :: "jstring \<Rightarrow> jstring" where
  "digit_class match = (if length match = 4 then d4 else d12)"

function replace_digits :: "jstring \<Rightarrow> jstring" where
  "replace_digits [] = []"
| "replace_digits (c # cs) =
     (if is_digit c
      then digit_class (c # takeWhile is_digit cs) @ replace_digits (dropWhile is_digit cs)
      else c # replace_digits cs)"
  by pat_completeness auto
termination
  by (relation "measure length") (auto simp: less_Suc_eq_le length_dropWhile_le)

definition generateRegexFromTime :: "jstring \<Rightarrow> jstring" where
  "generateRegexFromTime input =
     (let cleaned = trim (strip_brackets input);
          escaped = escape_special cleaned;
          pattern = replace_digits escaped
      in asc ''^'' @ pattern @ asc ''$'')"

text \<open>
  The synthesizer as the specification words it, in one pass over the cleaned text: a
  maximal run of digits becomes a digit class by its length, a metacharacter is escaped,
  any other character stays.
\<close>

function synthesize_spec :: "jstring \<Rightarrow> jstring" where
  "synthesize_spec [] = []"
| "synthesize_spec (c # cs) =
     (if is_digit c
      then (if length (c # takeWhile is_digit cs) = 4 then d4 else d12)
           @ synthesize_spec (dropWhile is_digit cs)
      else if is_special c then 0x5C # c # synthesize_spec cs
      else c # synthesize_spec cs)"
  by pat_completeness auto
termination
  by (relation "measure length") (auto simp: less_Suc_eq_le length_dropWhile_le)

section \<open>handleExcelImport: the column roles of an imported sheet\<close>

text \<open>
  \<open>handleExcelImport\<close> receives the rows that the sheet reader produces with
  \<open>header: 1\<close>: an array of arrays of cells. A cell is a value of the runtime (text,
  number, boolean, empty), so the cell type is left open and the two conversions the code
  applies to a cell are arguments: \<open>String(c)\<close>, and whether \<open>Number(c)\<close> is NaN.
  The keywords are given by code unit.
\<close>

record colMap =
  cm_serial :: int
  cm_name :: int
  cm_time :: int
  cm_location :: int

definition kw_serial :: jstring where "kw_serial = [0x5E8F, 0x53F7]"
definition kw_title :: jstring where "kw_title = [0x540D, 0x79F0]"
definition kw_activity :: jstring where "kw_activity = [0x6D3B, 0x52A8]"
definition kw_content :: jstring where "kw_content = [0x5185, 0x5BB9]"
definition kw_project :: jstring where "kw_project = [0x9879, 0x76EE]"
definition kw_time :: jstring where "kw_time = [0x65F6, 0x95F4]"
definition kw_date :: jstring where "kw_date = [0x65E5, 0x671F]"
definition kw_place :: jstring where "kw_place = [0x5730, 0x70B9]"
definition kw_address :: jstring where "kw_address = [0x5730, 0x5740]"
definition kw_venue :: jstring where "kw_venue = [0x573A, 0x9986]"

text \<open>\<open>String(c).trim().replace(/\s+/g, '')\<close>: the text of the cell without any white
  space.\<close>

definition cell_text :: "('c \<Rightarrow> jstring) \<Rightarrow> 'c \<Rightarrow> jstring" where
  "cell_text String c = filter (\<lambda>x. \<not> is_ws x) (trim (String c))"

definition rowStr :: "('c \<Rightarrow> jstring) \<Rightarrow> 'c list \<Rightarrow> jstring list" where
  "rowStr String row = map (cell_text String) row"

definition row_score :: "jstring list \<Rightarrow> nat" where
  "row_score cells =
     (if list_ex (\<lambda>s. includes_js s kw_serial) cells then 10 else 0)
     + (if list_ex (\<lambda>s. (includes_js s kw_title \<or> includes_js s kw_activity
                            \<or> includes_js s kw_content)
                         \<and> \<not> includes_js s kw_time \<and> \<not> includes_js s kw_place) cells
        then 10 else 0)
     + (if list_ex (\<lambda>s. includes_js s kw_time \<or> includes_js s kw_date) cells then 10 else 0)
     + (if list_ex (\<lambda>s. includes_js s kw_place \<or> includes_js s kw_address
                         \<or> includes_js s kw_venue) cells
        then 10 else 0)"

text \<open>The scan of the first twenty rows; the state is \<open>bestHeaderRowIndex\<close> and
  \<open>maxScore\<close>.\<close>

fun header_scan :: "nat \<Rightarrow> jstring list list \<Rightarrow> int \<times> nat \<Rightarrow> int \<times> nat" where
  "header_scan i [] st = st"
| "header_scan i (row # rows) (best, maxScore) =
     header_scan (Suc i) rows
       (if row_score row > maxScore then (int i, row_score row) else (best, maxScore))"

definition bestHeaderRowIndex :: "('c \<Rightarrow> jstring) \<Rightarrow> 'c list list \<Rightarrow> int" where
  "bestHeaderRowIndex String rawData =
     fst (header_scan 0 (map (rowStr String) (take 20 rawData)) (-1, 0))"

text \<open>The \<open>forEach\<close> over the cells of the header row: a later cell overwrites the
  role an earlier one was given.\<close>

definition is_name_cell :: "jstring \<Rightarrow> bool" where
  "is_name_cell cell =
     ((includes_js cell kw_title \<or> includes_js cell kw_activity \<or> includes_js cell kw_content
         \<or> includes_js cell kw_project)
      \<and> \<not> (includes_js cell kw_time \<or> includes_js cell kw_date \<or> includes_js cell kw_place
         \<or> includes_js cell kw_address \<or> includes_js cell kw_venue))"

fun header_roles :: "nat \<Rightarrow> jstring list \<Rightarrow> colMap \<Rightarrow> colMap" where
  "header_roles idx [] m = m"
| "header_roles idx (cell # cells) m =
     (let m1 = (if includes_js cell kw_serial then m\<lparr>cm_serial := int idx\<rparr> else m);
          m2 = (if is_name_cell cell then m1\<lparr>cm_name := int idx\<rparr> else m1);
          m3 = (if includes_js cell kw_time \<or> includes_js cell kw_date
                then m2\<lparr>cm_time := int idx\<rparr> else m2);
          m4 = (if includes_js cell kw_place \<or> includes_js cell kw_address
                   \<or> includes_js cell kw_venue
                then m3\<lparr>cm_location := int idx\<rparr> else m3)
      in header_roles (Suc idx) cells m4)"

definition role_defaults :: "colMap \<Rightarrow> colMap" where
  "role_defaults m =
     (if cm_name m \<noteq> -1 then
        (let m1 = (if cm_time m = -1 then m\<lparr>cm_time := cm_name m + 1\<rparr> else m)
         in if cm_location m1 = -1 then m1\<lparr>cm_location := cm_name m1 + 2\<rparr> else m1)
      else if cm_serial m \<noteq> -1 then
        m\<lparr>cm_name := cm_serial m + 1, cm_time := cm_serial m + 2, cm_location := cm_serial m + 3\<rparr>
      else m)"

text \<open>\<open>rawData[0][0]\<close> is undefined when the first row has no cell, and
  \<open>Number(undefined)\<close> is NaN.\<close>

definition looksLikeSerial :: "('c \<Rightarrow> bool) \<Rightarrow> 'c list list \<Rightarrow> bool" where
  "looksLikeSerial isNaN_Number rawData =
     (length rawData > 1 \<and>
      (case rawData ! 0 of [] \<Rightarrow> False | firstCell # _ \<Rightarrow> \<not> isNaN_Number firstCell))"

definition columnRoles :: "('c \<Rightarrow> jstring) \<Rightarrow> ('c \<Rightarrow> bool) \<Rightarrow> 'c list list \<Rightarrow> colMap" where
  "columnRoles String isNaN_Number rawData =
     (let best = bestHeaderRowIndex String rawData in
      if best \<noteq> -1 then
        role_defaults
          (header_roles 0 (rowStr String (rawData ! nat best))
             \<lparr>cm_serial = -1, cm_name = -1, cm_time = -1, cm_location = -1\<rparr>)
      else if looksLikeSerial isNaN_Number rawData
        then \<lparr>cm_serial = 0, cm_name = 1, cm_time = 2, cm_location = 3\<rparr>
        else \<lparr>cm_serial = -1, cm_name = 0, cm_time = 1, cm_location = 2\<rparr>)"

section \<open>performValidation: comparing the sheet with the poster\<close>

datatype errorKind = ErrSerial | ErrTime | ErrLocation

record AppEvent =
  ev_id :: jstring
  ev_serialNo :: jstring
  ev_name :: jstring
  ev_time :: jstring
  ev_location :: jstring
  ev_isLocationValid :: bool
  ev_isTimeValid :: bool
  ev_validationMessage :: "jstring option"
  ev_ignoredErrors :: "errorKind list option"

text \<open>\<open>Partial<AppEvent>\<close>: every field may be missing. The comparison reads these
  four.\<close>

record PosterEvent =
  p_serialNo :: "jstring option"
  p_name :: "jstring option"
  p_time :: "jstring option"
  p_location :: "jstring option"

datatype status = Match | Mismatch | MissingInPoster | ExtraInPoster

record diffs =
  d_name :: bool
  d_time :: bool
  d_location :: bool

record ValidationResult =
  vr_serial :: jstring
  vr_excelEvent :: "AppEvent option"
  vr_posterEvent :: "PosterEvent option"
  vr_status :: status
  vr_diffs :: diffs

text \<open>\<open>findIndex\<close> with the index passed to the predicate; \<open>None\<close> is \<open>-1\<close>.\<close>

fun findIndex_from :: "nat \<Rightarrow> ('a \<Rightarrow> nat \<Rightarrow> bool) \<Rightarrow> 'a list \<Rightarrow> nat option" where
  "findIndex_from i P [] = None"
| "findIndex_from i P (x # xs) = (if P x i then Some i else findIndex_from (Suc i) P xs)"

definition findIndex :: "('a \<Rightarrow> nat \<Rightarrow> bool) \<Rightarrow> 'a list \<Rightarrow> nat option" where
  "findIndex P xs = findIndex_from 0 P xs"

text \<open>\<open>replace(/\s/g, '')\<close>.\<close>

definition strip_ws :: "jstring \<Rightarrow> jstring" where
  "strip_ws s = filter (\<lambda>c. \<not> is_ws c) s"

definition serial_matches :: "nat set \<Rightarrow> AppEvent \<Rightarrow> PosterEvent \<Rightarrow> nat \<Rightarrow> bool" where
  "serial_matches posterUsed exItem p idx =
     (idx \<notin> posterUsed \<and> p_serialNo p = Some (ev_serialNo exItem))"

definition name_matches :: "nat set \<Rightarrow> AppEvent \<Rightarrow> PosterEvent \<Rightarrow> nat \<Rightarrow> bool" where
  "name_matches posterUsed exItem p idx =
     (idx \<notin> posterUsed \<and>
      (case p_name p of None \<Rightarrow> False | Some n \<Rightarrow> n \<noteq> [] \<and> includes_js (ev_name exItem) n))"

definition compare_items :: "AppEvent \<Rightarrow> PosterEvent \<Rightarrow> ValidationResult" where
  "compare_items exItem pItem =
     (let diffName = (p_name pItem \<noteq> Some (ev_name exItem));
          diffTime = (map_option strip_ws (p_time pItem) \<noteq> Some (strip_ws (ev_time exItem)));
          diffLoc = (map_option strip_ws (p_location pItem)
                      \<noteq> Some (strip_ws (ev_location exItem)));
          isMatch = (\<not> diffName \<and> \<not> diffTime \<and> \<not> diffLoc)
      in \<lparr>vr_serial = ev_serialNo exItem, vr_excelEvent = Some exItem,
          vr_posterEvent = Some pItem,
          vr_status = (if isMatch then Match else Mismatch),
          vr_diffs = \<lparr>d_name = diffName, d_time = diffTime, d_location = diffLoc\<rparr>\<rparr>)"

text \<open>One round of \<open>excel.forEach\<close>: the result pushed and the new \<open>posterUsed\<close>.\<close>

definition match_excel ::
  "PosterEvent list \<Rightarrow> nat set \<Rightarrow> AppEvent \<Rightarrow> ValidationResult \<times> nat set" where
  "match_excel poster posterUsed exItem =
     (let pIndex =
            (case findIndex (serial_matches posterUsed exItem) poster of
               Some i \<Rightarrow> Some i
             | None \<Rightarrow> findIndex (name_matches posterUsed exItem) poster)
      in case pIndex of
           Some i \<Rightarrow> (compare_items exItem (poster ! i), insert i posterUsed)
         | None \<Rightarrow>
             (\<lparr>vr_serial = ev_serialNo exItem, vr_excelEvent = Some exItem,
               vr_posterEvent = None, vr_status = MissingInPoster,
               vr_diffs = \<lparr>d_name = True, d_time = True, d_location = True\<rparr>\<rparr>,
              posterUsed))"

fun excel_loop ::
  "PosterEvent list \<Rightarrow> AppEvent list \<Rightarrow> nat set \<Rightarrow> ValidationResult list \<times> nat set" where
  "excel_loop poster [] posterUsed = ([], posterUsed)"
| "excel_loop poster (exItem # excel) posterUsed =
     (case match_excel poster posterUsed exItem of
        (r, used1) \<Rightarrow>
          (case excel_loop poster excel used1 of
             (rs, used2) \<Rightarrow> (r # rs, used2)))"

definition extra_item :: "PosterEvent \<Rightarrow> ValidationResult" where
  "extra_item pItem =
     \<lparr>vr_serial = (case p_serialNo pItem of
                      None \<Rightarrow> asc ''?''
                    | Some s \<Rightarrow> if s = [] then asc ''?'' else s),
      vr_excelEvent = None, vr_posterEvent = Some pItem, vr_status = ExtraInPoster,
      vr_diffs = \<lparr>d_name = True, d_time = True, d_location = True\<rparr>\<rparr>"

fun extras_from :: "nat \<Rightarrow> nat set \<Rightarrow> PosterEvent list \<Rightarrow> ValidationResult list" where
  "extras_from idx posterUsed [] = []"
| "extras_from idx posterUsed (pItem # poster) =
     (if idx \<notin> posterUsed then extra_item pItem # extras_from (Suc idx) posterUsed poster
      else extras_from (Suc idx) posterUsed poster)"

text \<open>The list \<open>results\<close> as it stands before \<open>results.sort\<close>.\<close>

definition results_unsorted :: "AppEvent list \<Rightarrow> PosterEvent list \<Rightarrow> ValidationResult list" where
  "results_unsorted excel poster =
     (case excel_loop poster excel {} of
        (rs, posterUsed) \<Rightarrow> rs @ extras_from 0 posterUsed poster)"

subsection \<open>Numbers and the sort\<close>

text \<open>
  The numbers that \<open>parseFloat\<close> can return, NaN apart: the two infinities and the
  finite values, ordered as the runtime orders them. \<open>parseFloat\<close> itself is the
  runtime's and is an argument of the model, with \<open>None\<close> for NaN. Both zeros are the one
  \<open>Finite 0\<close>: the code only asks whether the number is falsy.
\<close>

datatype number = NegInfinity | Finite rat | PosInfinity

fun rank :: "number \<Rightarrow> int \<times> rat" where
  "rank NegInfinity = (-1, 0)"
| "rank (Finite x) = (0, x)"
| "rank PosInfinity = (1, 0)"

instantiation number :: linorder
begin

definition less_eq_number :: "number \<Rightarrow> number \<Rightarrow> bool" where
  "less_eq_number a b =
     (fst (rank a) < fst (rank b) \<or> (fst (rank a) = fst (rank b) \<and> snd (rank a) \<le> snd (rank b)))"

definition less_number :: "number \<Rightarrow> number \<Rightarrow> bool" where
  "less_number a b = (a \<le> b \<and> \<not> b \<le> (a :: number))"

instance
proof
  fix x y z :: number
  show "(x < y) = (x \<le> y \<and> \<not> y \<le> x)"
    by (simp add: less_number_def)
  show "x \<le> x"
    by (simp add: less_eq_number_def)
  show "x \<le> y \<Longrightarrow> y \<le> z \<Longrightarrow> x \<le> z"
    by (auto simp: less_eq_number_def)
  show "x \<le> y \<Longrightarrow> y \<le> x \<Longrightarrow> x = y"
    by (cases x; cases y) (auto simp: less_eq_number_def)
  show "x \<le> y \<or> y \<le> x"
    by (auto simp: less_eq_number_def)
qed

end

text \<open>
  \<open>parseFloat(a.serial) || 9999\<close>: NaN and zero are falsy. The comparison function
  returns \<open>sa - sb\<close>, whose sign is the order of the two keys (and which is NaN, taken as
  equal, for two infinities of the same sign); it is a consistent comparison, and the
  sort of the runtime is stable, so \<open>results.sort\<close> is the stable sort by that key.
\<close>

definition sortKey :: "(jstring \<Rightarrow> number option) \<Rightarrow> jstring \<Rightarrow> number" where
  "sortKey parseFloat serial =
     (case parseFloat serial of
        None \<Rightarrow> Finite 9999
      | Some x \<Rightarrow> if x = Finite 0 then Finite 9999 else x)"

definition result_key :: "(jstring \<Rightarrow> number option) \<Rightarrow> ValidationResult \<Rightarrow> number" where
  "result_key parseFloat r = sortKey parseFloat (vr_serial r)"

definition performValidation ::
  "(jstring \<Rightarrow> number option) \<Rightarrow> AppEvent list \<Rightarrow> PosterEvent list \<Rightarrow> ValidationResult list" where
  "performValidation parseFloat excel poster =
     sort_key (result_key parseFloat) (results_unsorted excel poster)"

text \<open>
  The runtime's \<open>parseFloat\<close> on the decimal literals: leading white space is skipped,
  then the longest prefix that is a signed \<open>Infinity\<close> or a signed decimal literal
  (digits, an optional fraction, an optional exponent) is read; NaN when there is none.
  The value is the exact decimal value; the runtime rounds it to the nearest double, which
  changes nothing for a literal of at most fifteen significant digits.
\<close>

definition sign_split :: "jstring \<Rightarrow> bool \<times> jstring" where
  "sign_split s =
     (case s of
        [] \<Rightarrow> (False, [])
      | c # r \<Rightarrow> if c = 0x2D then (True, r) else if c = 0x2B then (False, r) else (False, s))"

definition exponent_part :: "jstring \<Rightarrow> int" where
  "exponent_part r =
     (case r of
        [] \<Rightarrow> 0
      | c # r1 \<Rightarrow>
          if c = 0x65 \<or> c = 0x45 then
            (case sign_split r1 of
               (neg, r2) \<Rightarrow>
                 if takeWhile is_digit r2 = [] then 0
                 else if neg then - int (parseInt_digits (takeWhile is_digit r2))
                 else int (parseInt_digits (takeWhile is_digit r2)))
          else 0)"

definition scale10 :: "rat \<Rightarrow> int \<Rightarrow> rat" where
  "scale10 x e = (if e \<ge> 0 then x * 10 ^ nat e else x / 10 ^ nat (- e))"

definition decimal_value :: "jstring \<Rightarrow> rat option" where
  "decimal_value u =
     (let ip = takeWhile is_digit u;
          r1 = dropWhile is_digit u;
          dot = (case r1 of [] \<Rightarrow> False | c # _ \<Rightarrow> c = 0x2E);
          fp = (if dot then takeWhile is_digit (tl r1) else []);
          r2 = (if dot then dropWhile is_digit (tl r1) else r1)
      in if ip = [] \<and> fp = [] then None
         else Some (scale10 (of_nat (parseInt_digits ip)
                       + of_nat (parseInt_digits fp) / 10 ^ length fp)
                     (exponent_part r2)))"

definition parseFloat_model :: "jstring \<Rightarrow> number option" where
  "parseFloat_model s =
     (case sign_split (dropWhile is_ws s) of
        (neg, u) \<Rightarrow>
          if starts_with u (asc ''Infinity'') then Some (if neg then NegInfinity else PosInfinity)
          else
            (case decimal_value u of
               None \<Rightarrow> None
             | Some v \<Rightarrow> Some (Finite (if neg then - v else v))))"

text \<open>The key of the specification: the serial parsed as a number, with the sentinel
  9999 for a serial that does not parse.\<close>

definition serial_key :: "(jstring \<Rightarrow> number option) \<Rightarrow> jstring \<Rightarrow> number" where
  "serial_key parseFloat serial =
     (case parseFloat serial of None \<Rightarrow> Finite 9999 | Some x \<Rightarrow> x)"

definition event :: "string \<Rightarrow> AppEvent" where
  "event serial =
     \<lparr>ev_id = asc serial, ev_serialNo = asc serial, ev_name = asc ''talk'', ev_time = [],
      ev_location = [], ev_isLocationValid = True, ev_isTimeValid = True,
      ev_validationMessage = None, ev_ignoredErrors = None\<rparr>"

section \<open>Facts about the model\<close>

lemma asc_Nil [simp]: "asc [] = []"
  by (simp add: asc_def)

lemma asc_Cons [simp]: "asc (c # cs) = of_char c # asc cs"
  by (simp add: asc_def)

lemma decimal_not_Nil: "decimal n \<noteq> []"
  by (subst decimal.simps) simp

lemma msg_month_not_Nil: "msg_month m \<noteq> []"
  by (simp add: msg_month_def)

lemma msg_day_not_Nil: "msg_day m d \<noteq> []"
  by (simp add: msg_day_def decimal_not_Nil)

lemma check_existence_not_Nil: "check_existence ds = Some e \<Longrightarrow> e \<noteq> []"
  by (induction ds rule: check_existence.induct)
     (auto simp: msg_month_not_Nil msg_day_not_Nil split: if_splits)

lemma checkLogicalValidity_not_Nil: "checkLogicalValidity s = Some e \<Longrightarrow> e \<noteq> []"
  by (auto simp: checkLogicalValidity_def Let_def msg_order_def
        split: if_splits option.splits dest: check_existence_not_Nil)

lemmas string_eval = bs_def is_line_terminator_def is_ws_def is_digit_def trim_def
  parseInt_digits_def decimal.simps

lemmas regexp_eval = RegExp_new_def parse_step_def token_def open_group_def close_group_def
  atom_escape_def escape_def braces_def parse_braces_def bracket_def parse_class_def
  atom_ranges_def atom_char_def quantifier_def quantify_def skip_lazy_def push_term_def
  next_alt_def close_frame_def mk_seq_def rs_digit_def rs_word_def rs_space_def rs_newline_def
  RegExp_test_def matches_at_def full_match_def iterate.simps grow.simps rep_more_def in_class_def longest_def

lemmas validate_eval = validateTimeFormat_def isFormatMatch_def cleanStr_def
  checkLogicalValidity_def match_date_def digits12_def is_date_sep_def daysInMonth_def
  has_range_sep_def msg_month_def msg_day_def rule_def d12_def d4_def sep_run_def Let_def

subsection \<open>White space only\<close>

lemma trim_Nil_iff: "trim s = [] \<longleftrightarrow> (\<forall>c \<in> set s. is_ws c)"
proof
  assume "trim s = []"
  then have a: "dropWhile is_ws (rev (dropWhile is_ws s)) = []"
    by (simp add: trim_def)
  show "\<forall>c \<in> set s. is_ws c"
  proof (cases "dropWhile is_ws s")
    case Nil
    then show ?thesis by (simp add: dropWhile_eq_Nil_conv)
  next
    case (Cons x xs)
    then have "\<not> is_ws x"
      by (metis hd_dropWhile list.sel(1) list.distinct(1))
    moreover have "\<forall>c \<in> set (rev (dropWhile is_ws s)). is_ws c"
      using a by (simp only: dropWhile_eq_Nil_conv)
    ultimately show ?thesis using Cons by simp
  qed
next
  assume "\<forall>c \<in> set s. is_ws c"
  then have "dropWhile is_ws s = []"
    using dropWhile_eq_Nil_conv by blast
  then show "trim s = []"
    by (simp only: trim_def rev.simps dropWhile.simps)
qed

lemma strip_brackets_id:
  "\<forall>c \<in> set s. c \<noteq> 0x28 \<and> c \<noteq> 0xFF08 \<Longrightarrow> strip_brackets s = s"
  by (induction s) auto

lemma is_ws_not_bracket: "is_ws c \<Longrightarrow> c \<noteq> 0x28 \<and> c \<noteq> 0xFF08"
  by (auto simp: is_ws_def is_line_terminator_def)

lemma cleanStr_blank: "trim s = [] \<Longrightarrow> cleanStr s = []"
proof -
  assume a: "trim s = []"
  then have "\<forall>c \<in> set s. is_ws c" by (simp add: trim_Nil_iff)
  then have "strip_brackets s = s"
    by (intro strip_brackets_id) (blast dest: is_ws_not_bracket)
  with a show ?thesis by (simp add: cleanStr_def)
qed

lemma checkLogicalValidity_Nil: "checkLogicalValidity [] = None"
  by (simp add: checkLogicalValidity_def)

subsection \<open>Rules that do not compile\<close>

lemma isFormatMatch_filter:
  "isFormatMatch new_RegExp test (filter (\<lambda>f. new_RegExp (tf_pattern f) \<noteq> None) formats) s
     = isFormatMatch new_RegExp test formats s"
  by (induction formats) (auto simp: isFormatMatch_def)

lemma isFormatMatch_iff:
  "isFormatMatch new_RegExp test formats s \<longleftrightarrow>
     (\<exists>fmt \<in> set formats. \<exists>regex. new_RegExp (tf_pattern fmt) = Some regex \<and> test regex s)"
  by (auto simp: isFormatMatch_def list_ex_iff split: option.splits)

lemma validate_stage2:
  assumes "timeStr \<noteq> []" and "isFormatMatch new_RegExp test formats (cleanStr timeStr)"
  shows "validateTimeFormat new_RegExp test timeStr formats =
        (case checkLogicalValidity (cleanStr timeStr) of
           None \<Rightarrow> \<lparr>isValid = True, message = None\<rparr>
         | Some logicError \<Rightarrow> \<lparr>isValid = False, message = Some logicError\<rparr>)"
proof (cases "checkLogicalValidity (cleanStr timeStr)")
  case None
  with assms show ?thesis by (simp add: validateTimeFormat_def)
next
  case (Some e)
  then have "e \<noteq> []" by (rule checkLogicalValidity_not_Nil)
  with assms Some show ?thesis by (simp add: validateTimeFormat_def)
qed

definition s_may1 :: jstring where
  "s_may1 = asc ''5'' @ [0x6708] @ asc ''1'' @ [0x65E5]"

lemma extract_may1: "extract_dates s_may1 = [(5, 1)]"
  by (simp add: s_may1_def string_eval match_date_def digits12_def is_date_sep_def)

lemma clean_may1: "cleanStr s_may1 = s_may1"
  by (simp add: s_may1_def string_eval cleanStr_def)

definition r_md :: regex where
  "r_md = Seq Bol (Seq (Rep 1 (Some 2) (Class False [(0x30, 0x39)]))
     (Seq (Class False [(0x6708, 0x6708)]) (Seq (Rep 1 (Some 2) (Class False [(0x30, 0x39)]))
     (Seq (Class False [(0x65E5, 0x65E5)]) (Seq Eol Empty)))))"

lemma parse_rule1: "RegExp_new (tf_pattern (INITIAL_TIME_FORMATS ! 0)) = Some r_md"
  by (simp add: INITIAL_TIME_FORMATS_def rule_def d12_def r_md_def string_eval regexp_eval)

lemma test_may1: "RegExp_test r_md s_may1"
  by (simp add: r_md_def s_may1_def regexp_eval)

text \<open>The range check of the specification: \<open>1 \<le> month \<le> 12\<close> and
  \<open>1 \<le> day \<le> daysInMonth[month]\<close>.\<close>

definition date_exists :: "nat \<times> nat \<Rightarrow> bool" where
  "date_exists p = (1 \<le> fst p \<and> fst p \<le> 12 \<and> 1 \<le> snd p \<and> snd p \<le> daysInMonth ! fst p)"

definition s_feb30 :: jstring where
  "s_feb30 = asc ''2'' @ [0x6708] @ asc ''30'' @ [0x65E5]"

definition msg_feb30 :: jstring where
  "msg_feb30 = asc ''2'' @ [0x6708, 0x53EA, 0x6709] @ asc ''29''
     @ [0x5929, 0xFF0C, 0x65E0, 0x6CD5, 0x8BBE, 0x7F6E, 0x4E3A] @ asc ''30'' @ [0x65E5]"

definition s_may_apr :: jstring where
  "s_may_apr = asc ''5'' @ [0x6708] @ asc ''1'' @ [0x65E5] @ asc ''-4'' @ [0x6708] @ asc ''1'' @ [0x65E5]"

definition s_may32_apr :: jstring where
  "s_may32_apr = asc ''5'' @ [0x6708] @ asc ''32'' @ [0x65E5] @ asc ''-4'' @ [0x6708] @ asc ''1''
     @ [0x65E5]"

definition msg_may32 :: jstring where
  "msg_may32 = asc ''5'' @ [0x6708, 0x53EA, 0x6709] @ asc ''31''
     @ [0x5929, 0xFF0C, 0x65E0, 0x6CD5, 0x8BBE, 0x7F6E, 0x4E3A] @ asc ''32'' @ [0x65E5]"

definition r_range :: regex where
  "r_range = Seq Bol (Seq (Rep 1 (Some 2) (Class False [(0x30, 0x39)]))
     (Seq (Class False [(0x6708, 0x6708)]) (Seq (Rep 1 (Some 2) (Class False [(0x30, 0x39)]))
     (Seq (Class False [(0x65E5, 0x65E5)])
     (Seq (Rep 1 None (Class False ((0x2D, 0x2D) # rs_space)))
     (Seq (Rep 1 (Some 2) (Class False [(0x30, 0x39)])) (Seq (Class False [(0x6708, 0x6708)])
     (Seq (Rep 1 (Some 2) (Class False [(0x30, 0x39)])) (Seq (Class False [(0x65E5, 0x65E5)])
     (Seq Eol Empty))))))))))"

subsection \<open>The calendar check\<close>

lemmas date_eval = match_date_def digits12_def is_date_sep_def

lemma check_existence_find:
  "check_existence ds =
     (case find (\<lambda>p. \<not> date_exists p) ds of
        None \<Rightarrow> None
      | Some (m, d) \<Rightarrow> Some (if 1 \<le> m \<and> m \<le> 12 then msg_day m d else msg_month m))"
  by (induction ds rule: check_existence.induct) (auto simp: date_exists_def)

lemma find_Some_not_Nil: "find P xs = Some x \<Longrightarrow> xs \<noteq> []"
  by (cases xs) auto

lemma logic_existence:
  assumes "find (\<lambda>p. \<not> date_exists p) (extract_dates s) = Some (m, d)"
  shows "checkLogicalValidity s
           = Some (if 1 \<le> m \<and> m \<le> 12 then msg_day m d else msg_month m)"
  using assms find_Some_not_Nil [OF assms]
  by (simp add: checkLogicalValidity_def check_existence_find)

lemma logic_all_exist:
  assumes "find (\<lambda>p. \<not> date_exists p) (extract_dates s) = None"
  shows "checkLogicalValidity s = None \<or> checkLogicalValidity s = Some msg_order"
  using assms by (simp add: checkLogicalValidity_def check_existence_find Let_def)

lemma logic_two_dates:
  assumes "extract_dates s = [(m1, d1), (m2, d2)]" and "has_range_sep s"
    and "date_exists (m1, d1)" and "date_exists (m2, d2)"
  shows "checkLogicalValidity s =
           (if m1 * 100 + d1 > m2 * 100 + d2 \<and> \<not> (m1 = 12 \<and> m2 = 1) \<and> \<not> has_year s
            then Some msg_order else None)"
  using assms by (simp add: checkLogicalValidity_def check_existence_find Let_def)

lemma msg_names:
  "sublist (decimal m) (msg_month m)" "sublist (decimal m) (msg_day m d)"
  "sublist (decimal (daysInMonth ! m)) (msg_day m d)" "sublist (decimal d) (msg_day m d)"
proof -
  show "sublist (decimal m) (msg_month m)"
    unfolding msg_month_def by (rule sublist_appendI)
  show "sublist (decimal m) (msg_day m d)"
    unfolding msg_day_def using sublist_appendI [of "decimal m" "[]"] by simp
  have "sublist (decimal (daysInMonth ! m))
     ((decimal m @ [0x6708, 0x53EA, 0x6709]) @ decimal (daysInMonth ! m)
      @ ([0x5929, 0xFF0C, 0x65E0, 0x6CD5, 0x8BBE, 0x7F6E, 0x4E3A] @ decimal d @ [0x65E5]))"
    by (rule sublist_appendI)
  then show "sublist (decimal (daysInMonth ! m)) (msg_day m d)"
    by (simp add: msg_day_def)
  have "sublist (decimal d)
     ((decimal m @ [0x6708, 0x53EA, 0x6709] @ decimal (daysInMonth ! m)
      @ [0x5929, 0xFF0C, 0x65E0, 0x6CD5, 0x8BBE, 0x7F6E, 0x4E3A]) @ decimal d @ [0x65E5])"
    by (rule sublist_appendI)
  then show "sublist (decimal d) (msg_day m d)"
    by (simp add: msg_day_def)
qed

lemma clean_feb30: "cleanStr s_feb30 = s_feb30"
  by (simp add: s_feb30_def string_eval cleanStr_def)

lemma extract_feb30: "extract_dates s_feb30 = [(2, 30)]"
  by (simp add: s_feb30_def string_eval date_eval)

lemma msg_day_feb30: "msg_day 2 30 = msg_feb30"
  by (simp add: msg_day_def msg_feb30_def daysInMonth_def decimal.simps)

lemma find_feb30: "find (\<lambda>p. \<not> date_exists p) (extract_dates (cleanStr s_feb30)) = Some (2, 30)"
  by (simp add: clean_feb30 extract_feb30 date_exists_def daysInMonth_def)

lemma test_feb30: "RegExp_test r_md s_feb30"
  by (simp add: r_md_def s_feb30_def regexp_eval)

lemma parse_rule2: "RegExp_new (tf_pattern (INITIAL_TIME_FORMATS ! 1)) = Some r_range"
  by (simp add: INITIAL_TIME_FORMATS_def rule_def d12_def sep_run_def r_range_def string_eval
        regexp_eval)

lemma clean_may_apr: "cleanStr s_may_apr = s_may_apr"
  by (simp add: s_may_apr_def string_eval cleanStr_def)

lemma extract_may_apr: "extract_dates s_may_apr = [(5, 1), (4, 1)]"
  by (simp add: s_may_apr_def string_eval date_eval)

lemma test_may_apr: "RegExp_test r_range s_may_apr"
  by (simp add: r_range_def s_may_apr_def regexp_eval)

lemma clean_may32_apr: "cleanStr s_may32_apr = s_may32_apr"
  by (simp add: s_may32_apr_def string_eval cleanStr_def)

lemma extract_may32_apr: "extract_dates s_may32_apr = [(5, 32), (4, 1)]"
  by (simp add: s_may32_apr_def string_eval date_eval)

lemma test_may32_apr: "RegExp_test r_range s_may32_apr"
  by (simp add: r_range_def s_may32_apr_def regexp_eval)

lemma msg_day_may32: "msg_day 5 32 = msg_may32"
  by (simp add: msg_day_def msg_may32_def daysInMonth_def decimal.simps)

subsection \<open>Anchors\<close>















subsection \<open>The messages are different texts\<close>

lemma decimal_head: "\<exists>c cs. decimal n = c # cs \<and> 0x30 \<le> c \<and> c \<le> 0x39"
proof (induction n rule: decimal.induct)
  case (1 n)
  show ?case
  proof (cases "n < 10")
    case True
    then show ?thesis by (subst decimal.simps) simp
  next
    case False
    with 1 obtain c cs where "decimal (n div 10) = c # cs" "0x30 \<le> c" "c \<le> 0x39"
      by blast
    with False show ?thesis by (subst decimal.simps) simp
  qed
qed

lemma check_existence_not_format: "check_existence ds = Some e \<Longrightarrow> e \<noteq> msg_format"
proof (induction ds rule: check_existence.induct)
  case 1
  then show ?case by simp
next
  case (2 m d ds)
  obtain c cs where c: "decimal m = c # cs" "0x30 \<le> c" "c \<le> 0x39"
    using decimal_head by blast
  have "msg_month m \<noteq> msg_format"
    by (simp add: msg_month_def msg_format_def)
  moreover have "msg_day m d \<noteq> msg_format"
    using c by (auto simp: msg_day_def msg_format_def)
  ultimately show ?case
    using 2 by (auto split: if_splits)
qed

lemma checkLogicalValidity_not_format: "checkLogicalValidity s = Some e \<Longrightarrow> e \<noteq> msg_format"
  by (auto simp: checkLogicalValidity_def Let_def msg_order_def msg_format_def
        split: if_splits option.splits dest: check_existence_not_format)

lemma stage1_message:
  assumes "timeStr \<noteq> []"
  shows "validateTimeFormat new_RegExp test timeStr formats
           = \<lparr>isValid = False, message = Some msg_format\<rparr>
         \<longleftrightarrow> \<not> isFormatMatch new_RegExp test formats (cleanStr timeStr)"
proof (cases "isFormatMatch new_RegExp test formats (cleanStr timeStr)")
  case True
  then show ?thesis
    using assms checkLogicalValidity_not_format [of "cleanStr timeStr"]
    by (auto simp: validate_stage2 split: option.splits)
next
  case False
  with assms show ?thesis by (simp add: validateTimeFormat_def)
qed


subsection \<open>Substrings\<close>

lemma starts_with_prefix: "starts_with s p \<longleftrightarrow> prefix p s"
  by (induction s p rule: starts_with.induct) auto

lemma includes_js_sublist: "includes_js a b \<longleftrightarrow> sublist b a"
  by (induction a) (auto simp: starts_with_prefix sublist_Cons_right)

lemma find_Some_holds: "find P xs = Some x \<Longrightarrow> P x \<and> x \<in> set xs"
  by (induction xs) (auto split: if_splits)

definition venue :: AddressLibraryItem where
  "venue = \<lparr>al_id = asc ''1'', al_name = [0x6587, 0x5316, 0x5BAB, 0x7BEE, 0x7403, 0x9986]\<rparr>"

definition venue_short :: jstring where
  "venue_short = [0x7BEE, 0x7403, 0x9986]"

definition venue_noted :: jstring where
  "venue_noted = [0x6587, 0x5316, 0x5BAB, 0x7BEE, 0x7403, 0x9986, 0x28, 0x5907, 0x6CE8, 0x29]"

lemma recommend_find:
  assumes "input \<noteq> []"
  shows "getRecommendedLocation input library =
     (case find (\<lambda>item. sublist (trim input) (al_name item)) library of
        Some item \<Rightarrow> Some (al_name item)
      | None \<Rightarrow> map_option al_name (find (\<lambda>item. sublist (al_name item) (trim input)) library))"
  using assms
  by (simp add: getRecommendedLocation_def includes_js_sublist split: option.splits)

subsection \<open>The synthesizer\<close>

text \<open>The SyntaxCharacter production of the pattern grammar: the fourteen characters
  with a meaning of their own in a pattern, the last one the backslash.\<close>

definition syntax_characters :: jstring where
  "syntax_characters = asc ''^$.*+?()[]{}|'' @ [0x5C]"

lemma is_special_syntax: "is_special c \<longleftrightarrow> c \<in> set syntax_characters"
  by (auto simp: is_special_def syntax_characters_def)

lemma special_not_digit: "is_special c \<Longrightarrow> \<not> is_digit c"
  by (auto simp: is_special_def is_digit_def)

lemma backslash_not_digit: "\<not> is_digit 0x5C"
  by (simp add: is_digit_def)

lemma takeWhile_escape_special:
  "takeWhile is_digit (escape_special cs) = takeWhile is_digit cs"
  by (induction cs) (auto simp: special_not_digit backslash_not_digit)

lemma dropWhile_escape_special:
  "dropWhile is_digit (escape_special cs) = escape_special (dropWhile is_digit cs)"
  by (induction cs) (auto simp: special_not_digit backslash_not_digit)

lemma replace_escape:
  "replace_digits (escape_special s) = synthesize_spec s"
proof (induction s rule: synthesize_spec.induct)
  case 1
  show ?case by simp
next
  case (2 c cs)
  show ?case
  proof (cases "is_digit c")
    case True
    then have "\<not> is_special c"
      using special_not_digit by blast
    with True 2 show ?thesis
      by (simp add: takeWhile_escape_special dropWhile_escape_special digit_class_def)
  next
    case False
    with 2 show ?thesis
      by (simp add: backslash_not_digit)
  qed
qed

definition s_dot :: jstring where
  "s_dot = asc ''5.1''"

definition s_dot2 :: jstring where
  "s_dot2 = asc ''12.25''"

definition p_dot :: jstring where
  "p_dot = asc ''^'' @ d12 @ bs ''.'' @ d12 @ asc ''$''"

definition r_dot :: regex where
  "r_dot = Seq Bol (Seq (Rep 1 (Some 2) (Class False [(0x30, 0x39)]))
     (Seq (Class False [(0x2E, 0x2E)]) (Seq (Rep 1 (Some 2) (Class False [(0x30, 0x39)]))
     (Seq Eol Empty))))"

lemma generate_dot: "generateRegexFromTime s_dot = p_dot"
  by (simp add: generateRegexFromTime_def s_dot_def p_dot_def string_eval is_special_def
        digit_class_def d12_def d4_def)

lemma parse_dot: "RegExp_new p_dot = Some r_dot"
  by (simp add: p_dot_def r_dot_def d12_def string_eval regexp_eval)

lemma test_dot:
  "RegExp_test r_dot s_dot" "RegExp_test r_dot s_dot2" "\<not> RegExp_test r_dot s_may1"
  by (simp_all add: r_dot_def s_dot_def s_dot2_def s_may1_def regexp_eval)

subsection \<open>Sheets\<close>

text \<open>Sheets whose cells are non-negative whole numbers: \<open>String\<close> is the decimal
  rendering and \<open>Number\<close> is never NaN.\<close>

definition sheet_one_row :: "nat list list" where
  "sheet_one_row = [[1, 2, 3, 4]]"

definition sheet_two_rows :: "nat list list" where
  "sheet_two_rows = [[1, 2, 3, 4], [2, 3, 4, 5]]"

lemmas sheet_eval = bestHeaderRowIndex_def rowStr_def cell_text_def row_score_def kw_serial_def kw_title_def
  kw_activity_def kw_content_def kw_project_def kw_time_def kw_date_def kw_place_def
  kw_address_def kw_venue_def

lemma no_header_one_row: "bestHeaderRowIndex decimal sheet_one_row = -1"
  by (simp add: sheet_one_row_def sheet_eval string_eval)

lemma no_header_two_rows: "bestHeaderRowIndex decimal sheet_two_rows = -1"
  by (simp add: sheet_two_rows_def sheet_eval string_eval)

subsection \<open>The sort\<close>

lemma insort_key_agree:
  "f x = g x \<Longrightarrow> \<forall>y \<in> set ys. f y = g y \<Longrightarrow> insort_key f x ys = insort_key g x ys"
  by (induction ys) auto

lemma sort_key_agree:
  "\<forall>x \<in> set xs. f x = g x \<Longrightarrow> sort_key f xs = sort_key g xs"
  by (induction xs) (auto intro: insort_key_agree)

lemma sortKey_serial_key:
  "parseFloat serial \<noteq> Some (Finite 0) \<Longrightarrow> sortKey parseFloat serial = serial_key parseFloat serial"
  by (auto simp: sortKey_def serial_key_def split: option.splits)

lemma performValidation_serial_key:
  assumes "\<forall>r \<in> set (results_unsorted excel poster). parseFloat (vr_serial r) \<noteq> Some (Finite 0)"
  shows "performValidation parseFloat excel poster
           = sort_key (\<lambda>r. serial_key parseFloat (vr_serial r)) (results_unsorted excel poster)"
  unfolding performValidation_def
  by (rule sort_key_agree) (use assms in \<open>auto simp: result_key_def sortKey_serial_key\<close>)

lemmas number_eval = parseFloat_model_def sign_split_def decimal_value_def exponent_part_def
  scale10_def less_eq_number_def sortKey_def result_key_def serial_key_def

lemmas reconcile_eval = results_unsorted_def match_excel_def findIndex_def serial_matches_def
  name_matches_def compare_items_def extra_item_def strip_ws_def event_def

lemma parse_serials:
  "parseFloat_model [0x31] = Some (Finite 1)"
  "parseFloat_model [0x32] = Some (Finite 2)"
  "parseFloat_model [0x31, 0x30, 0x30, 0x30, 0x30] = Some (Finite 10000)"
  "parseFloat_model [0x41] = None"
  by (simp_all add: number_eval string_eval Let_def)

definition missing :: "string \<Rightarrow> ValidationResult" where
  "missing serial =
     \<lparr>vr_serial = asc serial, vr_excelEvent = Some (event serial), vr_posterEvent = None,
      vr_status = MissingInPoster,
      vr_diffs = \<lparr>d_name = True, d_time = True, d_location = True\<rparr>\<rparr>"

lemma unsorted_sample:
  "results_unsorted [event ''2'', event ''A'', event ''1''] []
     = [missing ''2'', missing ''A'', missing ''1'']"
  by (simp add: reconcile_eval missing_def)

lemma unsorted_large:
  "results_unsorted [event ''10000'', event ''A''] [] = [missing ''10000'', missing ''A'']"
  by (simp add: reconcile_eval missing_def)

lemma keys_sample:
  "result_key parseFloat_model (missing ''1'') = Finite 1"
  "result_key parseFloat_model (missing ''2'') = Finite 2"
  "result_key parseFloat_model (missing ''10000'') = Finite 10000"
  "result_key parseFloat_model (missing ''A'') = Finite 9999"
  by (simp_all add: result_key_def sortKey_def missing_def parse_serials)

lemma sorted_sample:
  "performValidation parseFloat_model [event ''2'', event ''A'', event ''1''] []
     = [missing ''1'', missing ''2'', missing ''A'']"
  by (simp add: performValidation_def unsorted_sample keys_sample less_eq_number_def)

lemma sorted_large:
  "performValidation parseFloat_model [event ''10000'', event ''A''] []
     = [missing ''A'', missing ''10000'']"
  by (simp add: performValidation_def unsorted_large keys_sample less_eq_number_def)

subsection \<open>Anchored patterns\<close>



text \<open>The terms that the parser makes of a synthesized text: a digit class with its
  bounds for a run of digits, a literal for any other character.\<close>

function synth_terms :: "jstring \<Rightarrow> regex list" where
  "synth_terms [] = []"
| "synth_terms (c # cs) =
     (if is_digit c
      then (if length (c # takeWhile is_digit cs) = 4
            then Rep 4 (Some 4) (Class False rs_digit)
            else Rep 1 (Some 2) (Class False rs_digit))
           # synth_terms (dropWhile is_digit cs)
      else Class False [(c, c)] # synth_terms cs)"
  by pat_completeness auto
termination
  by (relation "measure length") (auto simp: less_Suc_eq_le length_dropWhile_le)







subsection \<open>The tree of a synthesized pattern\<close>

lemma token_plain: "\<not> is_special c \<Longrightarrow> token c = TChar"
  by (simp add: token_def is_special_def)

lemma escape_special_char: "is_special c \<Longrightarrow> escape c = Some (EscChar c)"
  by (auto simp: is_special_def escape_def)

lemma skip_lazy_synth:
  "skip_lazy (synthesize_spec s @ [0x24]) = synthesize_spec s @ [0x24]"
proof (cases s)
  case Nil
  then show ?thesis by (simp add: skip_lazy_def)
next
  case (Cons c cs)
  have "\<not> is_special c \<Longrightarrow> c \<noteq> 0x3F"
    by (auto simp: is_special_def)
  with Cons show ?thesis
    by (simp add: skip_lazy_def d4_def d12_def bs_def)
qed

lemma parse_d4:
  "parse st (Frame alts ts) q (d4 @ synthesize_spec s @ [0x24])
     = parse st (Frame alts (Rep 4 (Some 4) (Class False rs_digit) # ts)) False
         (synthesize_spec s @ [0x24])"
  by (simp add: d4_def bs_def parse_step_def token_def atom_escape_def escape_def push_term_def
        braces_def parse_braces_def is_digit_def parseInt_digits_def quantifier_def quantify_def
        skip_lazy_synth)

lemma parse_d12:
  "parse st (Frame alts ts) q (d12 @ synthesize_spec s @ [0x24])
     = parse st (Frame alts (Rep 1 (Some 2) (Class False rs_digit) # ts)) False
         (synthesize_spec s @ [0x24])"
  by (simp add: d12_def bs_def parse_step_def token_def atom_escape_def escape_def push_term_def
        braces_def parse_braces_def is_digit_def parseInt_digits_def quantifier_def quantify_def
        skip_lazy_synth)

lemma parse_escaped:
  "is_special c \<Longrightarrow>
   parse st (Frame alts ts) q (0x5C # c # rest)
     = parse st (Frame alts (Class False [(c, c)] # ts)) True rest"
  by (simp add: parse_step_def token_def atom_escape_def escape_special_char push_term_def)

lemma parse_plain:
  "\<not> is_special c \<Longrightarrow>
   parse st (Frame alts ts) q (c # rest)
     = parse st (Frame alts (Class False [(c, c)] # ts)) True rest"
  by (simp add: parse_step_def token_plain push_term_def)

lemma step_dollar:
  "parse_step st (Frame alts ts) q 0x24 [] = Continue st (Frame alts (Eol # ts)) False []"
  by (simp add: parse_step_def token_def push_term_def)

lemma parse_dollar:
  "parse st (Frame alts ts) q [0x24]
     = (if st = [] then Some (close_frame (Frame alts (Eol # ts))) else None)"
  by (simp add: step_dollar)

lemma parse_synth:
  "parse [] (Frame alts ts) q (synthesize_spec s @ [0x24])
     = Some (close_frame (Frame alts (Eol # rev (synth_terms s) @ ts)))"
proof (induction s arbitrary: ts q rule: synthesize_spec.induct)
  case 1
  show ?case by (simp add: parse_dollar del: parse.simps)
next
  case (2 c cs)
  show ?case
  proof (cases "is_digit c")
    case True
    with 2 show ?thesis
      by (simp add: parse_d4 parse_d12 del: parse.simps)
  next
    case d: False
    show ?thesis
    proof (cases "is_special c")
      case True
      with d 2 show ?thesis
        by (simp add: parse_escaped del: parse.simps)
    next
      case False
      with d 2 show ?thesis
        by (simp add: parse_plain del: parse.simps)
    qed
  qed
qed

lemma mk_seq_foldr: "foldl (\<lambda>acc t. Seq t acc) a xs = foldr Seq (rev xs) a"
  by (induction xs arbitrary: a) simp_all


lemma synthesized_tree:
  "RegExp_new (generateRegexFromTime input)
     = Some (Seq Bol (foldr Seq (synth_terms (cleanStr input)) (Seq Eol Empty)))"
proof -
  have "RegExp_new (generateRegexFromTime input)
      = parse [] (Frame [] []) False (0x5E # synthesize_spec (cleanStr input) @ [0x24])"
    by (simp add: RegExp_new_def generateRegexFromTime_def replace_escape cleanStr_def)
  also have "\<dots> = parse [] (Frame [] [Bol]) False (synthesize_spec (cleanStr input) @ [0x24])"
    by (simp add: parse_step_def token_def push_term_def)
  also have "\<dots> = Some (close_frame (Frame [] (Eol # rev (synth_terms (cleanStr input)) @ [Bol])))"
    by (simp add: parse_synth del: parse.simps)
  also have "\<dots> = Some (Seq Bol (foldr Seq (synth_terms (cleanStr input)) (Seq Eol Empty)))"
    by (simp add: close_frame_def mk_seq_def mk_seq_foldr)
  finally show ?thesis .
qed



subsection \<open>Rejection at the first stage\<close>

definition s_x :: jstring where
  "s_x = asc ''x''"

definition broken_rule :: TimeFormatItem where
  "broken_rule = rule ''11'' (asc ''broken'') (asc ''('')"

lemma stage1_rejects:
  assumes "timeStr \<noteq> []"
    and "\<forall>fmt \<in> set formats. \<forall>regex.
           new_RegExp (tf_pattern fmt) = Some regex \<longrightarrow> \<not> test regex (cleanStr timeStr)"
  shows "validateTimeFormat new_RegExp test timeStr formats
           = \<lparr>isValid = False, message = Some msg_format\<rparr>"
proof -
  from assms(2) have "\<not> isFormatMatch new_RegExp test formats (cleanStr timeStr)"
    unfolding isFormatMatch_iff by blast
  with assms(1) show ?thesis
    by (simp add: validateTimeFormat_def)
qed

subsection \<open>Bracketed remarks\<close>

lemma find_close_found:
  "cl \<notin> set mid \<Longrightarrow> \<not> list_ex is_line_terminator mid
     \<Longrightarrow> find_close cl (mid @ cl # post) = Some post"
  by (induction mid) auto

lemma find_close_none:
  "\<not> is_line_terminator cl
     \<Longrightarrow> find_close cl cs = None
           \<longleftrightarrow> cl \<notin> set (takeWhile (\<lambda>c. \<not> is_line_terminator c) cs)"
  by (induction cs) auto

lemma strip_brackets_prefix:
  "0x28 \<notin> set pre \<Longrightarrow> 0xFF08 \<notin> set pre
     \<Longrightarrow> strip_brackets (pre @ rest) = pre @ strip_brackets rest"
  by (induction pre) auto

lemma strip_brackets_closed:
  assumes "0x28 \<notin> set pre" "0xFF08 \<notin> set pre" "\<not> list_ex is_line_terminator mid"
  shows "0x29 \<notin> set mid
           \<Longrightarrow> strip_brackets (pre @ 0x28 # mid @ 0x29 # post) = pre @ strip_brackets post"
    and "0xFF09 \<notin> set mid
           \<Longrightarrow> strip_brackets (pre @ 0xFF08 # mid @ 0xFF09 # post) = pre @ strip_brackets post"
  using assms by (simp_all add: strip_brackets_prefix find_close_found)

lemma strip_brackets_open:
  assumes "0x28 \<notin> set pre" "0xFF08 \<notin> set pre"
  shows "0x29 \<notin> set (takeWhile (\<lambda>c. \<not> is_line_terminator c) cs)
           \<Longrightarrow> strip_brackets (pre @ 0x28 # cs) = pre @ 0x28 # strip_brackets cs"
    and "0xFF09 \<notin> set (takeWhile (\<lambda>c. \<not> is_line_terminator c) cs)
           \<Longrightarrow> strip_brackets (pre @ 0xFF08 # cs) = pre @ 0xFF08 # strip_brackets cs"
proof -
  have a: "\<not> is_line_terminator 0x29" "\<not> is_line_terminator 0xFF09"
    by (simp_all add: is_line_terminator_def)
  show "0x29 \<notin> set (takeWhile (\<lambda>c. \<not> is_line_terminator c) cs)
           \<Longrightarrow> strip_brackets (pre @ 0x28 # cs) = pre @ 0x28 # strip_brackets cs"
    using assms find_close_none [OF a(1), of cs] by (simp add: strip_brackets_prefix)
  show "0xFF09 \<notin> set (takeWhile (\<lambda>c. \<not> is_line_terminator c) cs)
           \<Longrightarrow> strip_brackets (pre @ 0xFF08 # cs) = pre @ 0xFF08 # strip_brackets cs"
    using assms find_close_none [OF a(2), of cs] by (simp add: strip_brackets_prefix)
qed

lemma strip_brackets_none:
  "0x28 \<notin> set s \<Longrightarrow> 0xFF08 \<notin> set s \<Longrightarrow> strip_brackets s = s"
  using strip_brackets_prefix [of s "[]"] by simp

definition s_note :: jstring where
  "s_note = asc ''note''"

definition s_dot_note :: jstring where
  "s_dot_note = asc ''5.1(note)''"

definition s_dot_wide :: jstring where
  "s_dot_wide = asc ''5.1'' @ [0xFF08] @ asc ''note'' @ [0xFF09]"

definition s_nested :: jstring where
  "s_nested = asc ''5((a))''"

definition s_two_lines :: jstring where
  "s_two_lines = asc ''5(a'' @ [0x0A] @ asc ''b)''"

definition s_five :: jstring where
  "s_five = asc ''5''"

definition s_five_close :: jstring where
  "s_five_close = asc ''5)''"

definition p_five_close :: jstring where
  "p_five_close = asc ''^'' @ d12 @ bs '')'' @ asc ''$''"

definition r_five_close :: regex where
  "r_five_close = Seq Bol (Seq (Rep 1 (Some 2) (Class False [(0x30, 0x39)]))
     (Seq (Class False [(0x29, 0x29)]) (Seq Eol Empty)))"

definition p_two_lines :: jstring where
  "p_two_lines = asc ''^'' @ d12 @ bs ''(a'' @ [0x0A] @ asc ''b'' @ bs '')'' @ asc ''$''"

lemmas generate_eval = generateRegexFromTime_def string_eval is_special_def digit_class_def
  d12_def d4_def

lemma generate_dot_note: "generateRegexFromTime s_dot_note = p_dot"
  by (simp add: s_dot_note_def p_dot_def generate_eval)

lemma generate_dot_wide: "generateRegexFromTime s_dot_wide = p_dot"
  by (simp add: s_dot_wide_def p_dot_def generate_eval)

lemma generate_nested: "generateRegexFromTime s_nested = p_five_close"
  by (simp add: s_nested_def p_five_close_def generate_eval)

lemma generate_two_lines: "generateRegexFromTime s_two_lines = p_two_lines"
  by (simp add: s_two_lines_def p_two_lines_def generate_eval)

lemma parse_five_close: "RegExp_new p_five_close = Some r_five_close"
  by (simp add: p_five_close_def r_five_close_def d12_def string_eval regexp_eval)

lemma test_five_close:
  "RegExp_test r_five_close s_five_close" "\<not> RegExp_test r_five_close s_five"
  by (simp_all add: r_five_close_def s_five_close_def s_five_def regexp_eval)

definition s_rest :: jstring where
  "s_rest = asc ''a'' @ [0x0A] @ asc ''b)''"

section \<open>The claims\<close>

text \<open>
  C10. For every input string and rule set, the result of \<open>validateTimeFormat\<close> carries
  a message exactly when \<open>isValid\<close> is false, and a message it carries is never the
  empty string: a failing result has a non-empty message, a successful one has none.
\<close>

theorem C10_message_iff_invalid:
  "isValid (validateTimeFormat new_RegExp test timeStr formats)
     = (message (validateTimeFormat new_RegExp test timeStr formats) = None)
   \<and> message (validateTimeFormat new_RegExp test timeStr formats) \<noteq> Some []"
  by (auto simp: validateTimeFormat_def msg_empty_def msg_format_def
        split: option.splits dest: checkLogicalValidity_not_Nil)

text \<open>
  C4, as the code has it. The check \<open>if (!timeStr)\<close> is made on the input as given,
  before it is trimmed: for every rule set the empty string is rejected at once with the
  "empty" message, with no pattern looked at. An input that is not empty but is empty after
  trimming passes that check; its cleaned text is the empty string, which goes through
  stage 1 like any other text: it is valid when some rule matches the empty string and
  is rejected with the "no known format" message otherwise.
\<close>

theorem C4_empty_input:
  "validateTimeFormat new_RegExp test [] formats = \<lparr>isValid = False, message = Some msg_empty\<rparr>
   \<and> (timeStr \<noteq> [] \<and> trim timeStr = [] \<longrightarrow>
        validateTimeFormat new_RegExp test timeStr formats =
          (if isFormatMatch new_RegExp test formats []
           then \<lparr>isValid = True, message = None\<rparr>
           else \<lparr>isValid = False, message = Some msg_format\<rparr>))"
  by (simp add: validateTimeFormat_def cleanStr_blank checkLogicalValidity_Nil)

theorem C4_empty_input_witness:
  "asc ''  '' \<noteq> [] \<and> trim (asc ''  '') = []
   \<and> \<not> isFormatMatch RegExp_new RegExp_test [INITIAL_TIME_FORMATS ! 0] []
   \<and> validateTimeFormat RegExp_new RegExp_test (asc ''  '') [INITIAL_TIME_FORMATS ! 0]
       = \<lparr>isValid = False, message = Some msg_format\<rparr>"
proof -
  have a: "asc ''  '' \<noteq> [] \<and> trim (asc ''  '') = []"
    by (simp add: string_eval)
  have b: "\<not> isFormatMatch RegExp_new RegExp_test [INITIAL_TIME_FORMATS ! 0] []"
    by (simp add: string_eval regexp_eval isFormatMatch_def INITIAL_TIME_FORMATS_def rule_def
          d12_def)
  from a b C4_empty_input [of RegExp_new RegExp_test "[INITIAL_TIME_FORMATS ! 0]" "asc ''  ''"]
  show ?thesis by simp
qed

text \<open>
  C4 as stated fails on a single blank: with the built-in rules the message is the
  "no known format" one, not the "empty" one, and with a rule that matches the empty
  string the blank input is valid.
\<close>

theorem C4_blank_counterexample:
  "validateTimeFormat RegExp_new RegExp_test (asc '' '') INITIAL_TIME_FORMATS
     = \<lparr>isValid = False, message = Some msg_format\<rparr>
   \<and> msg_format \<noteq> msg_empty
   \<and> validateTimeFormat RegExp_new RegExp_test (asc '' '') [rule ''11'' (asc ''blank'') (asc ''^$'')]
     = \<lparr>isValid = True, message = None\<rparr>"
  by (simp add: string_eval regexp_eval validate_eval INITIAL_TIME_FORMATS_def
        msg_format_def msg_empty_def)

text \<open>
  C9. The constructor's failure is a value here (\<open>None\<close>), and the validator returns
  a result for every rule set: no error reaches the caller. A rule whose pattern does not
  compile counts as matching nothing, so validation gives the same result as with those
  rules removed. When some rule of the set compiles and its test succeeds on the
  cleaned text, the input (not empty) passes stage 1 and the result is the one of the
  calendar check, whatever malformed rules stand before or after it. A non-empty input
  is rejected with the "no known format" message exactly when no rule that compiles has
  a successful test on the cleaned text; in particular it is rejected when no rule of the
  set compiles.
\<close>

theorem C9_malformed_rule_ignored:
  "validateTimeFormat new_RegExp test timeStr formats
     = validateTimeFormat new_RegExp test timeStr
         (filter (\<lambda>f. new_RegExp (tf_pattern f) \<noteq> None) formats)
   \<and> (timeStr \<noteq> [] \<and> good \<in> set formats \<and> new_RegExp (tf_pattern good) = Some regex
        \<and> test regex (cleanStr timeStr) \<longrightarrow>
      validateTimeFormat new_RegExp test timeStr formats =
        (case checkLogicalValidity (cleanStr timeStr) of
           None \<Rightarrow> \<lparr>isValid = True, message = None\<rparr>
         | Some logicError \<Rightarrow> \<lparr>isValid = False, message = Some logicError\<rparr>))
   \<and> (timeStr \<noteq> [] \<longrightarrow>
      (validateTimeFormat new_RegExp test timeStr formats
         = \<lparr>isValid = False, message = Some msg_format\<rparr>
       \<longleftrightarrow> (\<forall>fmt \<in> set formats. \<forall>r. new_RegExp (tf_pattern fmt) = Some r
               \<longrightarrow> \<not> test r (cleanStr timeStr))))
   \<and> (timeStr \<noteq> [] \<and> (\<forall>fmt \<in> set formats. new_RegExp (tf_pattern fmt) = None) \<longrightarrow>
      validateTimeFormat new_RegExp test timeStr formats
        = \<lparr>isValid = False, message = Some msg_format\<rparr>)"
proof (intro conjI impI)
  show "validateTimeFormat new_RegExp test timeStr formats
     = validateTimeFormat new_RegExp test timeStr
         (filter (\<lambda>f. new_RegExp (tf_pattern f) \<noteq> None) formats)"
    by (simp only: validateTimeFormat_def isFormatMatch_filter)
next
  assume a: "timeStr \<noteq> [] \<and> good \<in> set formats \<and> new_RegExp (tf_pattern good) = Some regex
        \<and> test regex (cleanStr timeStr)"
  then have "isFormatMatch new_RegExp test formats (cleanStr timeStr)"
    unfolding isFormatMatch_iff by blast
  with a show "validateTimeFormat new_RegExp test timeStr formats =
        (case checkLogicalValidity (cleanStr timeStr) of
           None \<Rightarrow> \<lparr>isValid = True, message = None\<rparr>
         | Some logicError \<Rightarrow> \<lparr>isValid = False, message = Some logicError\<rparr>)"
    by (intro validate_stage2) simp_all
next
  assume "timeStr \<noteq> []"
  then have "validateTimeFormat new_RegExp test timeStr formats
         = \<lparr>isValid = False, message = Some msg_format\<rparr>
       \<longleftrightarrow> \<not> isFormatMatch new_RegExp test formats (cleanStr timeStr)"
    by (rule stage1_message)
  then show "validateTimeFormat new_RegExp test timeStr formats
         = \<lparr>isValid = False, message = Some msg_format\<rparr>
       \<longleftrightarrow> (\<forall>fmt \<in> set formats. \<forall>r. new_RegExp (tf_pattern fmt) = Some r
               \<longrightarrow> \<not> test r (cleanStr timeStr))"
    unfolding isFormatMatch_iff by blast
next
  assume "timeStr \<noteq> [] \<and> (\<forall>fmt \<in> set formats. new_RegExp (tf_pattern fmt) = None)"
  then show "validateTimeFormat new_RegExp test timeStr formats
        = \<lparr>isValid = False, message = Some msg_format\<rparr>"
    by (intro stage1_rejects) simp_all
qed

theorem C9_malformed_rule_ignored_witness:
  "RegExp_new (tf_pattern broken_rule) = None
   \<and> validateTimeFormat RegExp_new RegExp_test s_may1 [broken_rule, INITIAL_TIME_FORMATS ! 0]
      = \<lparr>isValid = True, message = None\<rparr>
   \<and> validateTimeFormat RegExp_new RegExp_test s_x [broken_rule]
      = \<lparr>isValid = False, message = Some msg_format\<rparr>
   \<and> validateTimeFormat RegExp_new RegExp_test s_x [broken_rule, INITIAL_TIME_FORMATS ! 0]
      = \<lparr>isValid = False, message = Some msg_format\<rparr>"
proof -
  have a: "RegExp_new (tf_pattern broken_rule) = None"
    by (simp add: broken_rule_def rule_def regexp_eval)
  have b: "s_may1 \<noteq> []" "s_x \<noteq> []"
    by (simp_all add: s_may1_def s_x_def)
  have c: "checkLogicalValidity (cleanStr s_may1) = None"
    by (simp add: clean_may1 checkLogicalValidity_def extract_may1 daysInMonth_def)
  have d: "INITIAL_TIME_FORMATS ! 0 \<in> set [broken_rule, INITIAL_TIME_FORMATS ! 0]"
    by simp
  have e: "RegExp_test r_md (cleanStr s_may1)"
    by (simp only: clean_may1 test_may1)
  have f: "cleanStr s_x = s_x"
    by (simp add: s_x_def string_eval cleanStr_def)
  have g: "\<not> RegExp_test r_md (cleanStr s_x)"
    unfolding f by (simp add: r_md_def s_x_def regexp_eval)
  from C9_malformed_rule_ignored [of RegExp_new RegExp_test s_may1
      "[broken_rule, INITIAL_TIME_FORMATS ! 0]" "INITIAL_TIME_FORMATS ! 0" r_md]
  have "validateTimeFormat RegExp_new RegExp_test s_may1 [broken_rule, INITIAL_TIME_FORMATS ! 0]
      = (case checkLogicalValidity (cleanStr s_may1) of
           None \<Rightarrow> \<lparr>isValid = True, message = None\<rparr>
         | Some logicError \<Rightarrow> \<lparr>isValid = False, message = Some logicError\<rparr>)"
    using b d parse_rule1 e by blast
  with c have h: "validateTimeFormat RegExp_new RegExp_test s_may1
      [broken_rule, INITIAL_TIME_FORMATS ! 0] = \<lparr>isValid = True, message = None\<rparr>"
    by simp
  have "\<forall>fmt \<in> set [broken_rule]. RegExp_new (tf_pattern fmt) = None"
    using a by simp
  with C9_malformed_rule_ignored [of RegExp_new RegExp_test s_x "[broken_rule]"] b
  have i: "validateTimeFormat RegExp_new RegExp_test s_x [broken_rule]
      = \<lparr>isValid = False, message = Some msg_format\<rparr>"
    by blast
  have "\<forall>fmt \<in> set [broken_rule, INITIAL_TIME_FORMATS ! 0]. \<forall>r.
          RegExp_new (tf_pattern fmt) = Some r \<longrightarrow> \<not> RegExp_test r (cleanStr s_x)"
    using a g parse_rule1 by simp
  with C9_malformed_rule_ignored [of RegExp_new RegExp_test s_x
      "[broken_rule, INITIAL_TIME_FORMATS ! 0]"] b
  have j: "validateTimeFormat RegExp_new RegExp_test s_x [broken_rule, INITIAL_TIME_FORMATS ! 0]
      = \<lparr>isValid = False, message = Some msg_format\<rparr>"
    by blast
  from a h i j show ?thesis by simp
qed

text \<open>
  C3. Let the input pass stage 1. If any extracted pair is outside
  \<open>1 \<le> month \<le> 12\<close>, \<open>1 \<le> day \<le> daysInMonth[month]\<close>, validation fails, and the
  message is the one built for the first such pair: the month message when its month is
  out of range, the day message otherwise. The month message contains the month in
  decimal; the day message contains the month, the number of days of that month and the
  day. If every pair is in range, the result is valid or is the ordering failure, never a
  month or day message. February has 29 days in the table, and \<open>2M30D\<close> (M, D the
  month and day markers) is invalid under every rule set whose stage 1 accepts it, with
  the message that the second month has only 29 days and cannot be set to day 30.
\<close>

theorem C3_calendar_check:
  "(timeStr \<noteq> [] \<and> isFormatMatch new_RegExp test formats (cleanStr timeStr)
      \<and> pair \<in> set (extract_dates (cleanStr timeStr)) \<and> \<not> date_exists pair \<longrightarrow>
    \<not> isValid (validateTimeFormat new_RegExp test timeStr formats))
   \<and> (timeStr \<noteq> [] \<and> isFormatMatch new_RegExp test formats (cleanStr timeStr)
      \<and> find (\<lambda>p. \<not> date_exists p) (extract_dates (cleanStr timeStr)) = Some (m, d) \<longrightarrow>
    validateTimeFormat new_RegExp test timeStr formats =
      \<lparr>isValid = False,
       message = Some (if 1 \<le> m \<and> m \<le> 12 then msg_day m d else msg_month m)\<rparr>)
   \<and> (timeStr \<noteq> [] \<and> isFormatMatch new_RegExp test formats (cleanStr timeStr)
      \<and> find (\<lambda>p. \<not> date_exists p) (extract_dates (cleanStr timeStr)) = None \<longrightarrow>
    validateTimeFormat new_RegExp test timeStr formats = \<lparr>isValid = True, message = None\<rparr>
    \<or> validateTimeFormat new_RegExp test timeStr formats
        = \<lparr>isValid = False, message = Some msg_order\<rparr>)
   \<and> sublist (decimal m) (msg_month m)
   \<and> sublist (decimal m) (msg_day m d)
   \<and> sublist (decimal (daysInMonth ! m)) (msg_day m d)
   \<and> sublist (decimal d) (msg_day m d)
   \<and> daysInMonth ! 2 = 29
   \<and> (isFormatMatch new_RegExp test formats s_feb30 \<longrightarrow>
        validateTimeFormat new_RegExp test s_feb30 formats
          = \<lparr>isValid = False, message = Some msg_feb30\<rparr>)"
proof (intro conjI impI)
  assume a: "timeStr \<noteq> [] \<and> isFormatMatch new_RegExp test formats (cleanStr timeStr)
      \<and> pair \<in> set (extract_dates (cleanStr timeStr)) \<and> \<not> date_exists pair"
  then have "find (\<lambda>p. \<not> date_exists p) (extract_dates (cleanStr timeStr)) \<noteq> None"
    unfolding find_None_iff by blast
  then obtain m' d' where
    "find (\<lambda>p. \<not> date_exists p) (extract_dates (cleanStr timeStr)) = Some (m', d')"
    by (cases "find (\<lambda>p. \<not> date_exists p) (extract_dates (cleanStr timeStr))") auto
  then have "checkLogicalValidity (cleanStr timeStr)
           = Some (if 1 \<le> m' \<and> m' \<le> 12 then msg_day m' d' else msg_month m')"
    by (rule logic_existence)
  with a show "\<not> isValid (validateTimeFormat new_RegExp test timeStr formats)"
    by (simp add: validate_stage2)
next
  assume a: "timeStr \<noteq> [] \<and> isFormatMatch new_RegExp test formats (cleanStr timeStr)
      \<and> find (\<lambda>p. \<not> date_exists p) (extract_dates (cleanStr timeStr)) = Some (m, d)"
  then have "checkLogicalValidity (cleanStr timeStr)
           = Some (if 1 \<le> m \<and> m \<le> 12 then msg_day m d else msg_month m)"
    by (intro logic_existence) simp
  with a show "validateTimeFormat new_RegExp test timeStr formats =
      \<lparr>isValid = False,
       message = Some (if 1 \<le> m \<and> m \<le> 12 then msg_day m d else msg_month m)\<rparr>"
    by (simp add: validate_stage2)
next
  assume a: "timeStr \<noteq> [] \<and> isFormatMatch new_RegExp test formats (cleanStr timeStr)
      \<and> find (\<lambda>p. \<not> date_exists p) (extract_dates (cleanStr timeStr)) = None"
  then have "checkLogicalValidity (cleanStr timeStr) = None
      \<or> checkLogicalValidity (cleanStr timeStr) = Some msg_order"
    by (intro logic_all_exist) simp
  with a show "validateTimeFormat new_RegExp test timeStr formats
        = \<lparr>isValid = True, message = None\<rparr>
    \<or> validateTimeFormat new_RegExp test timeStr formats
        = \<lparr>isValid = False, message = Some msg_order\<rparr>"
    by (auto simp: validate_stage2)
next
  show "daysInMonth ! 2 = 29"
    by (simp add: daysInMonth_def)
next
  assume a: "isFormatMatch new_RegExp test formats s_feb30"
  have b: "s_feb30 \<noteq> []"
    by (simp add: s_feb30_def)
  have "checkLogicalValidity (cleanStr s_feb30) = Some msg_feb30"
    using logic_existence [OF find_feb30] by (simp add: msg_day_feb30)
  with a b show "validateTimeFormat new_RegExp test s_feb30 formats
          = \<lparr>isValid = False, message = Some msg_feb30\<rparr>"
    by (simp add: validate_stage2 clean_feb30)
qed (rule msg_names)+

theorem C3_calendar_check_witness:
  "isFormatMatch RegExp_new RegExp_test [INITIAL_TIME_FORMATS ! 0] s_feb30
   \<and> find (\<lambda>p. \<not> date_exists p) (extract_dates (cleanStr s_feb30)) = Some (2, 30)
   \<and> validateTimeFormat RegExp_new RegExp_test s_feb30 [INITIAL_TIME_FORMATS ! 0]
       = \<lparr>isValid = False, message = Some msg_feb30\<rparr>"
proof -
  have a: "isFormatMatch RegExp_new RegExp_test [INITIAL_TIME_FORMATS ! 0] s_feb30"
    by (simp add: isFormatMatch_def parse_rule1 test_feb30)
  from a C3_calendar_check [of s_feb30 RegExp_new RegExp_test "[INITIAL_TIME_FORMATS ! 0]"
      "(2, 30)" 2 30]
  have "validateTimeFormat RegExp_new RegExp_test s_feb30 [INITIAL_TIME_FORMATS ! 0]
       = \<lparr>isValid = False, message = Some msg_feb30\<rparr>"
    by blast
  with a find_feb30 show ?thesis by simp
qed

text \<open>
  C2, amended by the check that precedes it. Let the input pass stage 1, let stage 2
  extract exactly two pairs from the cleaned text, let the cleaned text contain a hyphen
  or U+81F3, and let both pairs pass the month and day range check. Then validation
  fails with the "end time cannot precede start time" message exactly when
  \<open>month * 100 + day\<close> of the first pair exceeds that of the second, the pair is not
  December followed by January, and the text has no four digits followed by the year
  marker; in every other case it is valid.
\<close>

theorem C2_range_order:
  assumes "timeStr \<noteq> []"
    and "isFormatMatch new_RegExp test formats (cleanStr timeStr)"
    and "extract_dates (cleanStr timeStr) = [(m1, d1), (m2, d2)]"
    and "has_range_sep (cleanStr timeStr)"
    and "date_exists (m1, d1)" and "date_exists (m2, d2)"
  shows "validateTimeFormat new_RegExp test timeStr formats =
     (if m1 * 100 + d1 > m2 * 100 + d2 \<and> \<not> (m1 = 12 \<and> m2 = 1)
           \<and> \<not> has_year (cleanStr timeStr)
      then \<lparr>isValid = False, message = Some msg_order\<rparr>
      else \<lparr>isValid = True, message = None\<rparr>)"
proof -
  have "checkLogicalValidity (cleanStr timeStr) =
           (if m1 * 100 + d1 > m2 * 100 + d2 \<and> \<not> (m1 = 12 \<and> m2 = 1)
                 \<and> \<not> has_year (cleanStr timeStr)
            then Some msg_order else None)"
    using assms(3-6) by (rule logic_two_dates)
  with assms(1,2) show ?thesis
    by (simp add: validate_stage2)
qed

theorem C2_range_order_witness:
  "s_may_apr \<noteq> []
   \<and> isFormatMatch RegExp_new RegExp_test [INITIAL_TIME_FORMATS ! 1] (cleanStr s_may_apr)
   \<and> extract_dates (cleanStr s_may_apr) = [(5, 1), (4, 1)]
   \<and> has_range_sep (cleanStr s_may_apr)
   \<and> date_exists (5, 1) \<and> date_exists (4, 1)
   \<and> validateTimeFormat RegExp_new RegExp_test s_may_apr [INITIAL_TIME_FORMATS ! 1]
       = \<lparr>isValid = False, message = Some msg_order\<rparr>"
proof -
  have a: "s_may_apr \<noteq> []"
    by (simp add: s_may_apr_def)
  have b: "isFormatMatch RegExp_new RegExp_test [INITIAL_TIME_FORMATS ! 1] (cleanStr s_may_apr)"
    unfolding isFormatMatch_iff clean_may_apr using parse_rule2 test_may_apr by simp
  have c: "extract_dates (cleanStr s_may_apr) = [(5, 1), (4, 1)]"
    by (simp add: clean_may_apr extract_may_apr)
  have d: "has_range_sep (cleanStr s_may_apr)"
    unfolding clean_may_apr by (simp add: s_may_apr_def has_range_sep_def)
  have e: "date_exists (5, 1)" "date_exists (4, 1)"
    by (simp_all add: date_exists_def daysInMonth_def)
  have f: "\<not> has_year (cleanStr s_may_apr)"
    unfolding clean_may_apr by (simp add: s_may_apr_def is_digit_def)
  from C2_range_order [OF a b c d e] f
  have "validateTimeFormat RegExp_new RegExp_test s_may_apr [INITIAL_TIME_FORMATS ! 1]
       = \<lparr>isValid = False, message = Some msg_order\<rparr>"
    by simp
  with a b c d e show ?thesis by simp
qed

text \<open>
  C2 as stated fails where a pair does not exist: in \<open>5M32D-4M1D\<close> the first pair exceeds
  the second and neither exception applies, yet with the built-in rules the message is
  the day message for the fifth month, not the ordering message.
\<close>

theorem C2_invalid_date_counterexample:
  "extract_dates (cleanStr s_may32_apr) = [(5, 32), (4, 1)]
   \<and> has_range_sep (cleanStr s_may32_apr)
   \<and> \<not> has_year (cleanStr s_may32_apr)
   \<and> (5::nat) * 100 + 32 > 4 * 100 + 1
   \<and> validateTimeFormat RegExp_new RegExp_test s_may32_apr INITIAL_TIME_FORMATS
       = \<lparr>isValid = False, message = Some msg_may32\<rparr>
   \<and> msg_may32 \<noteq> msg_order"
proof -
  have a: "s_may32_apr \<noteq> []"
    by (simp add: s_may32_apr_def)
  have "INITIAL_TIME_FORMATS ! 1 \<in> set INITIAL_TIME_FORMATS"
    by (simp add: INITIAL_TIME_FORMATS_def)
  then have b: "isFormatMatch RegExp_new RegExp_test INITIAL_TIME_FORMATS (cleanStr s_may32_apr)"
    unfolding isFormatMatch_iff clean_may32_apr using parse_rule2 test_may32_apr by blast
  have c: "extract_dates (cleanStr s_may32_apr) = [(5, 32), (4, 1)]"
    by (simp add: clean_may32_apr extract_may32_apr)
  have d: "has_range_sep (cleanStr s_may32_apr)"
    unfolding clean_may32_apr by (simp add: s_may32_apr_def has_range_sep_def)
  have f: "\<not> has_year (cleanStr s_may32_apr)"
    unfolding clean_may32_apr by (simp add: s_may32_apr_def is_digit_def)
  have "find (\<lambda>p. \<not> date_exists p) (extract_dates (cleanStr s_may32_apr)) = Some (5, 32)"
    by (simp add: c date_exists_def daysInMonth_def)
  then have "checkLogicalValidity (cleanStr s_may32_apr) = Some msg_may32"
    using logic_existence [of "cleanStr s_may32_apr" 5 32] by (simp add: msg_day_may32)
  with a b have g: "validateTimeFormat RegExp_new RegExp_test s_may32_apr INITIAL_TIME_FORMATS
       = \<lparr>isValid = False, message = Some msg_may32\<rparr>"
    by (simp add: validate_stage2)
  have h: "msg_may32 \<noteq> msg_order"
    by (simp add: msg_may32_def msg_order_def)
  from c d f g h show ?thesis by simp
qed




text \<open>
  C6, amended for the empty input. For a location string that is not empty,
  \<open>getRecommendedLocation\<close> trims it and returns the name of the first library entry
  whose name contains the trimmed text; if there is none, the name of the first entry
  whose name occurs in the trimmed text; and it returns null exactly when the library
  has no entry of either kind. For the empty string it returns null, whatever the
  library holds.
\<close>

theorem C6_recommend:
  "(input \<noteq> [] \<longrightarrow>
      getRecommendedLocation input library =
        (case find (\<lambda>item. sublist (trim input) (al_name item)) library of
           Some item \<Rightarrow> Some (al_name item)
         | None \<Rightarrow>
             map_option al_name (find (\<lambda>item. sublist (al_name item) (trim input)) library)))
   \<and> (input \<noteq> [] \<longrightarrow>
        (getRecommendedLocation input library = None \<longleftrightarrow>
           (\<forall>item \<in> set library. \<not> sublist (trim input) (al_name item)
               \<and> \<not> sublist (al_name item) (trim input))))
   \<and> getRecommendedLocation [] library = None"
proof (intro conjI impI)
  assume a: "input \<noteq> []"
  then show "getRecommendedLocation input library =
        (case find (\<lambda>item. sublist (trim input) (al_name item)) library of
           Some item \<Rightarrow> Some (al_name item)
         | None \<Rightarrow>
             map_option al_name (find (\<lambda>item. sublist (al_name item) (trim input)) library))"
    by (rule recommend_find)
  show "getRecommendedLocation input library = None \<longleftrightarrow>
           (\<forall>item \<in> set library. \<not> sublist (trim input) (al_name item)
               \<and> \<not> sublist (al_name item) (trim input))"
    unfolding recommend_find [OF a]
    by (auto simp: find_None_iff split: option.splits dest: find_Some_holds)
next
  show "getRecommendedLocation [] library = None"
    by (simp add: getRecommendedLocation_def)
qed


theorem C6_recommend_witness:
  "venue_short \<noteq> [] \<and> venue_noted \<noteq> []
   \<and> getRecommendedLocation venue_short [venue] = Some (al_name venue)
   \<and> getRecommendedLocation venue_noted [venue] = Some (al_name venue)
   \<and> getRecommendedLocation (asc ''x'') [venue] = None"
proof -
  have a: "venue_short \<noteq> []" "venue_noted \<noteq> []" "asc ''x'' \<noteq> []"
    by (simp_all add: venue_short_def venue_noted_def)
  have b: "sublist (trim venue_short) (al_name venue)"
    by (simp add: includes_js_sublist [symmetric] venue_def venue_short_def string_eval)
  have c: "\<not> sublist (trim venue_noted) (al_name venue)"
    "sublist (al_name venue) (trim venue_noted)"
    by (simp_all add: includes_js_sublist [symmetric] venue_def venue_noted_def string_eval)
  have d: "\<not> sublist (trim (asc ''x'')) (al_name venue)"
    "\<not> sublist (al_name venue) (trim (asc ''x''))"
    by (simp_all add: includes_js_sublist [symmetric] venue_def string_eval)
  from a b c d C6_recommend [of venue_short "[venue]"] C6_recommend [of venue_noted "[venue]"]
    C6_recommend [of "asc ''x''" "[venue]"]
  show ?thesis by simp
qed

text \<open>
  C6 as stated fails on the empty input: every name contains the empty text, yet the
  answer is null.
\<close>

theorem C6_empty_input_counterexample:
  "getRecommendedLocation [] [venue] = None \<and> sublist (trim []) (al_name venue)"
  by (simp add: getRecommendedLocation_def trim_def)

text \<open>
  C8, amended in its first step. \<open>generateRegexFromTime\<close> removes bracketed remarks
  from left to right: at the first opening bracket, ASCII or fullwidth, the text up to the
  first closing bracket of the same kind is removed when no line terminator stands
  between the two, and the opening bracket is kept when the rest of its line has no such
  closing bracket; a text without opening bracket is unchanged. The result is \<open>^\<close>,
  then the one-pass synthesis of the stripped and trimmed text, then \<open>$\<close>: every
  maximal run of digits replaced by the four-digit class when the run has exactly four
  digits and by the one-to-two-digit class otherwise, every metacharacter of the pattern
  language (the escaped characters are exactly its syntax characters) preceded by a
  backslash, every other character kept. The pattern compiles, to the start anchor, one
  term for each run of digits and each other character, and the end anchor. A closed
  remark after \<open>5.1\<close>, in ASCII or in fullwidth brackets, does not change the pattern.
  The pattern synthesized from \<open>5.1\<close> matches \<open>5.1\<close> and \<open>12.25\<close> and does not
  match \<open>5M1D\<close>.
\<close>

theorem C8_synthesize:
  "generateRegexFromTime input
     = asc ''^'' @ synthesize_spec (trim (strip_brackets input)) @ asc ''$''
   \<and> (0x28 \<notin> set pre \<and> 0xFF08 \<notin> set pre \<longrightarrow>
        (0x29 \<notin> set mid \<and> \<not> list_ex is_line_terminator mid \<longrightarrow>
           strip_brackets (pre @ 0x28 # mid @ 0x29 # post) = pre @ strip_brackets post)
      \<and> (0xFF09 \<notin> set mid \<and> \<not> list_ex is_line_terminator mid \<longrightarrow>
           strip_brackets (pre @ 0xFF08 # mid @ 0xFF09 # post) = pre @ strip_brackets post)
      \<and> (0x29 \<notin> set (takeWhile (\<lambda>c. \<not> is_line_terminator c) post) \<longrightarrow>
           strip_brackets (pre @ 0x28 # post) = pre @ 0x28 # strip_brackets post)
      \<and> (0xFF09 \<notin> set (takeWhile (\<lambda>c. \<not> is_line_terminator c) post) \<longrightarrow>
           strip_brackets (pre @ 0xFF08 # post) = pre @ 0xFF08 # strip_brackets post)
      \<and> strip_brackets pre = pre)
   \<and> (is_special c \<longleftrightarrow> c \<in> set syntax_characters)
   \<and> RegExp_new (generateRegexFromTime input)
       = Some (Seq Bol (foldr Seq (synth_terms (trim (strip_brackets input))) (Seq Eol Empty)))
   \<and> generateRegexFromTime s_dot_note = generateRegexFromTime s_dot
   \<and> generateRegexFromTime s_dot_wide = generateRegexFromTime s_dot
   \<and> map_option (\<lambda>regex. RegExp_test regex s_dot) (RegExp_new (generateRegexFromTime s_dot))
       = Some True
   \<and> map_option (\<lambda>regex. RegExp_test regex s_dot2) (RegExp_new (generateRegexFromTime s_dot))
       = Some True
   \<and> map_option (\<lambda>regex. RegExp_test regex s_may1) (RegExp_new (generateRegexFromTime s_dot))
       = Some False"
proof (intro conjI impI)
  show "generateRegexFromTime input
     = asc ''^'' @ synthesize_spec (trim (strip_brackets input)) @ asc ''$''"
    by (simp add: generateRegexFromTime_def replace_escape)
next
  show "is_special c \<longleftrightarrow> c \<in> set syntax_characters"
    by (rule is_special_syntax)
next
  show "RegExp_new (generateRegexFromTime input)
       = Some (Seq Bol (foldr Seq (synth_terms (trim (strip_brackets input))) (Seq Eol Empty)))"
    using synthesized_tree [of input] by (simp only: cleanStr_def)
next
  assume "0x28 \<notin> set pre \<and> 0xFF08 \<notin> set pre"
    and "0x29 \<notin> set mid \<and> \<not> list_ex is_line_terminator mid"
  then show "strip_brackets (pre @ 0x28 # mid @ 0x29 # post) = pre @ strip_brackets post"
    by (intro strip_brackets_closed) blast+
next
  assume "0x28 \<notin> set pre \<and> 0xFF08 \<notin> set pre"
    and "0xFF09 \<notin> set mid \<and> \<not> list_ex is_line_terminator mid"
  then show "strip_brackets (pre @ 0xFF08 # mid @ 0xFF09 # post) = pre @ strip_brackets post"
    by (intro strip_brackets_closed) blast+
next
  assume "0x28 \<notin> set pre \<and> 0xFF08 \<notin> set pre"
    and "0x29 \<notin> set (takeWhile (\<lambda>c. \<not> is_line_terminator c) post)"
  then show "strip_brackets (pre @ 0x28 # post) = pre @ 0x28 # strip_brackets post"
    by (intro strip_brackets_open) blast+
next
  assume "0x28 \<notin> set pre \<and> 0xFF08 \<notin> set pre"
    and "0xFF09 \<notin> set (takeWhile (\<lambda>c. \<not> is_line_terminator c) post)"
  then show "strip_brackets (pre @ 0xFF08 # post) = pre @ 0xFF08 # strip_brackets post"
    by (intro strip_brackets_open) blast+
next
  assume "0x28 \<notin> set pre \<and> 0xFF08 \<notin> set pre"
  then show "strip_brackets pre = pre"
    by (intro strip_brackets_none) blast+
qed (simp_all add: generate_dot generate_dot_note generate_dot_wide parse_dot test_dot)

theorem C8_synthesize_witness:
  "0x28 \<notin> set s_dot \<and> 0xFF08 \<notin> set s_dot
   \<and> 0x29 \<notin> set s_note \<and> 0xFF09 \<notin> set s_note \<and> \<not> list_ex is_line_terminator s_note
   \<and> strip_brackets (s_dot @ 0x28 # s_note @ 0x29 # []) = s_dot
   \<and> strip_brackets (s_dot @ 0xFF08 # s_note @ 0xFF09 # []) = s_dot
   \<and> strip_brackets s_dot = s_dot
   \<and> 0x28 \<notin> set s_five \<and> 0xFF08 \<notin> set s_five
   \<and> 0x29 \<notin> set (takeWhile (\<lambda>c. \<not> is_line_terminator c) s_rest)
   \<and> 0xFF09 \<notin> set (takeWhile (\<lambda>c. \<not> is_line_terminator c) s_rest)
   \<and> strip_brackets (s_five @ 0x28 # s_rest) = s_five @ 0x28 # s_rest
   \<and> strip_brackets (s_five @ 0xFF08 # s_rest) = s_five @ 0xFF08 # s_rest"
proof -
  have a: "0x28 \<notin> set s_dot \<and> 0xFF08 \<notin> set s_dot"
    by (simp add: s_dot_def)
  have b: "0x29 \<notin> set s_note \<and> \<not> list_ex is_line_terminator s_note"
    "0xFF09 \<notin> set s_note \<and> \<not> list_ex is_line_terminator s_note"
    by (simp_all add: s_note_def is_line_terminator_def)
  have c: "0x28 \<notin> set s_five \<and> 0xFF08 \<notin> set s_five"
    by (simp add: s_five_def)
  have d: "0x29 \<notin> set (takeWhile (\<lambda>c. \<not> is_line_terminator c) s_rest)"
    "0xFF09 \<notin> set (takeWhile (\<lambda>c. \<not> is_line_terminator c) s_rest)"
    by (simp_all add: s_rest_def is_line_terminator_def)
  have e: "0x28 \<notin> set s_rest \<and> 0xFF08 \<notin> set s_rest"
    by (simp add: s_rest_def)
  have f: "strip_brackets [] = []"
    by simp
  have g: "strip_brackets s_rest = s_rest"
    using C8_synthesize [where pre = s_rest] e by blast
  have h: "strip_brackets (s_dot @ 0x28 # s_note @ 0x29 # []) = s_dot @ strip_brackets []"
    "strip_brackets (s_dot @ 0xFF08 # s_note @ 0xFF09 # []) = s_dot @ strip_brackets []"
    "strip_brackets s_dot = s_dot"
    using C8_synthesize [where pre = s_dot and mid = s_note and post = "[]"] a b by blast+
  have i: "strip_brackets (s_five @ 0x28 # s_rest) = s_five @ 0x28 # strip_brackets s_rest"
    "strip_brackets (s_five @ 0xFF08 # s_rest) = s_five @ 0xFF08 # strip_brackets s_rest"
    using C8_synthesize [where pre = s_five and post = s_rest] c d by blast+
  from a b c d h i show ?thesis
    by (simp only: f g append_Nil2 simp_thms)
qed

text \<open>
  C8 as stated fails for a remark within a remark and for a remark that runs over a line
  break. Of \<open>5((a))\<close> the outer closing bracket stays, and the pattern matches
  \<open>5)\<close> and does not match \<open>5\<close>. Of the text \<open>5(a\<close>, line feed, \<open>b)\<close>
  nothing is removed.
\<close>

theorem C8_nested_remark_counterexample:
  "strip_brackets s_nested = s_five_close
   \<and> generateRegexFromTime s_nested = p_five_close
   \<and> RegExp_new p_five_close = Some r_five_close
   \<and> RegExp_test r_five_close s_five_close
   \<and> \<not> RegExp_test r_five_close s_five
   \<and> strip_brackets s_two_lines = s_two_lines
   \<and> generateRegexFromTime s_two_lines = p_two_lines"
proof -
  have "strip_brackets s_nested = s_five_close"
    by (simp add: s_nested_def s_five_close_def is_line_terminator_def)
  moreover have "strip_brackets s_two_lines = s_two_lines"
    by (simp add: s_two_lines_def is_line_terminator_def)
  ultimately show ?thesis
    by (simp only: generate_nested generate_two_lines parse_five_close test_five_close
          simp_thms)
qed

text \<open>
  C7, amended by the guard on the number of rows. When no header row is identified,
  the roles are positional: serial, name, time, location at 0, 1, 2, 3 if the sheet has
  more than one row and \<open>Number\<close> of the first cell of the first row is not NaN;
  name, time, location at 0, 1, 2 with no serial column otherwise, in particular for
  every sheet of a single row.
\<close>

theorem C7_positional_roles:
  assumes "bestHeaderRowIndex String rawData = -1"
  shows "columnRoles String isNaN_Number rawData =
     (if length rawData > 1 \<and> rawData ! 0 \<noteq> [] \<and> \<not> isNaN_Number (hd (rawData ! 0))
      then \<lparr>cm_serial = 0, cm_name = 1, cm_time = 2, cm_location = 3\<rparr>
      else \<lparr>cm_serial = -1, cm_name = 0, cm_time = 1, cm_location = 2\<rparr>)"
  using assms
  by (auto simp: columnRoles_def looksLikeSerial_def split: list.splits)

theorem C7_positional_roles_witness:
  "bestHeaderRowIndex decimal sheet_two_rows = -1
   \<and> columnRoles decimal (\<lambda>c. False) sheet_two_rows
       = \<lparr>cm_serial = 0, cm_name = 1, cm_time = 2, cm_location = 3\<rparr>"
  using C7_positional_roles [OF no_header_two_rows, of "\<lambda>c. False"] no_header_two_rows
  by (simp add: sheet_two_rows_def)

text \<open>
  C7 as stated fails on a sheet of one row: no header is identified, the first cell is
  a number, and still the roles are name, time, location at 0, 1, 2 with no serial.
\<close>

theorem C7_single_row_counterexample:
  "bestHeaderRowIndex decimal sheet_one_row = -1
   \<and> hd (hd sheet_one_row) = 1
   \<and> columnRoles decimal (\<lambda>c. False) sheet_one_row
       = \<lparr>cm_serial = -1, cm_name = 0, cm_time = 1, cm_location = 2\<rparr>"
  using no_header_one_row
  by (simp add: columnRoles_def looksLikeSerial_def sheet_one_row_def)

text \<open>
  C5, amended for the sentinel. Let no entry's serial parse to zero. Then the sequence
  that \<open>performValidation\<close> produces is the stable sort of the entries by the key
  "serial parsed as a number, 9999 when it does not parse": it is ascending in that
  key, it holds the same entries, and the entries of any one key stand in their original
  order. So an entry whose serial does not parse stands after every entry whose number
  is below 9999 and before every entry whose number is above it.
\<close>

theorem C5_sorted_by_serial:
  assumes "\<forall>r \<in> set (results_unsorted excel poster). parseFloat (vr_serial r) \<noteq> Some (Finite 0)"
  shows "sorted (map (\<lambda>r. serial_key parseFloat (vr_serial r))
                  (performValidation parseFloat excel poster))
    \<and> mset (performValidation parseFloat excel poster) = mset (results_unsorted excel poster)
    \<and> filter (\<lambda>r. serial_key parseFloat (vr_serial r) = k)
          (performValidation parseFloat excel poster)
        = filter (\<lambda>r. serial_key parseFloat (vr_serial r) = k) (results_unsorted excel poster)"
  unfolding performValidation_serial_key [OF assms]
  by (simp add: sort_key_stable)

theorem C5_sorted_by_serial_witness:
  "sorted (map (\<lambda>r. serial_key parseFloat_model (vr_serial r))
        (performValidation parseFloat_model [event ''2'', event ''A'', event ''1''] []))
   \<and> map vr_serial (performValidation parseFloat_model [event ''2'', event ''A'', event ''1''] [])
       = [asc ''1'', asc ''2'', asc ''A'']"
proof -
  have "\<forall>r \<in> set (results_unsorted [event ''2'', event ''A'', event ''1''] []).
          parseFloat_model (vr_serial r) \<noteq> Some (Finite 0)"
    by (simp add: unsorted_sample missing_def parse_serials)
  from C5_sorted_by_serial [OF this]
  have "sorted (map (\<lambda>r. serial_key parseFloat_model (vr_serial r))
        (performValidation parseFloat_model [event ''2'', event ''A'', event ''1''] []))"
    by blast
  moreover have
    "map vr_serial (performValidation parseFloat_model [event ''2'', event ''A'', event ''1''] [])
       = [asc ''1'', asc ''2'', asc ''A'']"
    by (simp add: sorted_sample missing_def)
  ultimately show ?thesis by blast
qed

text \<open>
  C5 as stated fails above the sentinel: the serial \<open>A\<close> does not parse, \<open>10000\<close>
  does, and the entry of \<open>A\<close> is placed before the entry of \<open>10000\<close>.
\<close>

theorem C5_sentinel_counterexample:
  "parseFloat_model (asc ''A'') = None
   \<and> parseFloat_model (asc ''10000'') = Some (Finite 10000)
   \<and> map vr_serial (performValidation parseFloat_model [event ''10000'', event ''A''] [])
       = [asc ''A'', asc ''10000'']"
  by (simp add: parse_serials sorted_large missing_def)

end
